theory Spec2Isabelle
  imports Complex_Main "HOL-Library.Word" "HOL-Library.Signed_Division"
begin

section \<open>Bloblang runtime values (internal/bloblang/query/type_helpers.go)\<close>

text \<open>
  A Bloblang value is a Go \<^verbatim>\<open>interface{}\<close>. The embedding has one constructor per
  dynamic type that the type switches of the source distinguish:
  \<^item> \<^verbatim>\<open>string\<close> and \<^verbatim>\<open>[]byte\<close> are byte sequences (\<^typ>\<open>string\<close>: an Isabelle
    character is a byte), so \<^verbatim>\<open>string(t)\<close> is the identity on the payload;
  \<^item> \<^verbatim>\<open>int\<close>, \<^verbatim>\<open>int64\<close>, \<^verbatim>\<open>uint64\<close> and \<^verbatim>\<open>uint\<close> are 64-bit words (a 64-bit
    platform), \<^verbatim>\<open>int32\<close> and \<^verbatim>\<open>uint32\<close> 32-bit words; signedness is in the
    operations, as in the machine;
  \<^item> \<^verbatim>\<open>float64\<close> is the type parameter \<open>'f\<close>: nothing is assumed about IEEE
    arithmetic, its operations are fields of the environment record below;
    a \<^verbatim>\<open>float32\<close> is held as the \<^verbatim>\<open>float64\<close> it widens to;
  \<^item> \<^verbatim>\<open>json.Number\<close> and \<^verbatim>\<open>json.RawMessage\<close> carry their text; a \<^verbatim>\<open>time.Time\<close>
    carries its RFC3339Nano rendering, the only thing the source reads of it;
  \<^item> \<open>BUnknown\<close> stands for every other dynamic type.
\<close>

datatype 'f boxed =
    BString string
  | BBytes string
  | BInt "64 word"
  | BInt64 "64 word"
  | BUint64 "64 word"
  | BFloat64 'f
  | BJsonNumber string
  | BBool bool
  | BArray "'f boxed list"
  | BObject "(string \<times> 'f boxed) list"
  | BDelete
  | BNothing
  | BNil
  | BRawMessage string
  | BTime string
  | BInt32 "32 word"
  | BUint32 "32 word"
  | BUint "64 word"
  | BFloat32 'f
  | BUnknown

datatype ValueType =
    ValueString | ValueBytes | ValueNumber | ValueBool | ValueArray
  | ValueObject | ValueNull | ValueDelete | ValueNothing | ValueUnknown

fun ITypeOf :: "'f boxed \<Rightarrow> ValueType" where
  "ITypeOf (BString _) = ValueString"
| "ITypeOf (BBytes _) = ValueBytes"
| "ITypeOf (BInt _) = ValueNumber"
| "ITypeOf (BInt64 _) = ValueNumber"
| "ITypeOf (BUint64 _) = ValueNumber"
| "ITypeOf (BFloat64 _) = ValueNumber"
| "ITypeOf (BJsonNumber _) = ValueNumber"
| "ITypeOf (BBool _) = ValueBool"
| "ITypeOf (BArray _) = ValueArray"
| "ITypeOf (BObject _) = ValueObject"
| "ITypeOf BDelete = ValueDelete"
| "ITypeOf BNothing = ValueNothing"
| "ITypeOf BNil = ValueNull"
| "ITypeOf _ = ValueUnknown"

datatype ArithmeticOperator =
    ArithmeticAdd | ArithmeticSub | ArithmeticDiv | ArithmeticMul | ArithmeticMod
  | ArithmeticEq | ArithmeticNeq | ArithmeticGt | ArithmeticLt | ArithmeticGte
  | ArithmeticLte | ArithmeticAnd | ArithmeticOr | ArithmeticPipe

text \<open>
  Errors are values. \<open>TypeError\<close> is what \<^verbatim>\<open>NewTypeError(v, exp...)\<close> builds; the
  other constructors are the \<^verbatim>\<open>errors.New\<close> and \<^verbatim>\<open>fmt.Errorf\<close> values of the
  source, with the formatted arguments as fields. \<open>NumError\<close> is the error of
  \<^verbatim>\<open>strconv\<close> behind \<^verbatim>\<open>json.Number\<close>, \<open>IndexPanic\<close> a slice index out of range,
  \<open>OtherError\<close> any error a child function returns.
\<close>

datatype error =
    TypeError "ValueType list" ValueType
  | ErrDivideByZero
  | NumError string
  | MismatchError nat nat
  | UnresolvedError "ArithmeticOperator list"
  | ArgCountError nat nat
  | BadArgument nat error
  | IndexPanic
  | OtherError string

text \<open>
  Modelled from the spec: \<^verbatim>\<open>NewTypeError\<close> is declared in a file of the package that
  is not among the sources; the specification gives its content as
  \<^verbatim>\<open>TypeError(expected=[...], actual=type_of(v))\<close>.
\<close>

definition NewTypeError :: "'f boxed \<Rightarrow> ValueType list \<Rightarrow> error" where
  "NewTypeError v expected = TypeError expected (ITypeOf v)"

text \<open>
  The operations of the Go runtime and of the libraries the source calls and that are
  not part of it: \<^verbatim>\<open>float64\<close> arithmetic and comparison, the numeric conversions,
  \<^verbatim>\<open>json.Number.Int64\<close>/\<^verbatim>\<open>Float64\<close> (\<^verbatim>\<open>strconv\<close>) and \<^verbatim>\<open>cmp.Equal\<close>. Every
  function below takes them as the parameter \<open>E\<close>, and every theorem holds for all of
  them. Go's \<^verbatim>\<open>a > b\<close> and \<^verbatim>\<open>a >= b\<close> on floats are \<^verbatim>\<open>b < a\<close> and \<^verbatim>\<open>b <= a\<close>, and
  \<^verbatim>\<open>a != b\<close> is the negation of \<^verbatim>\<open>a == b\<close>.

  \<open>f64_value\<close> is the real number a float denotes, \<open>None\<close> for a NaN and the
  infinities. \<open>int64_unrepresentable\<close> is what the platform returns for \<^verbatim>\<open>int64(f)\<close>
  when \<open>f\<close> has no value or its integer part does not fit 64 bits: the language
  leaves that result to the implementation.
\<close>

record 'f go_env =
  f64_add :: "'f \<Rightarrow> 'f \<Rightarrow> 'f"
  f64_sub :: "'f \<Rightarrow> 'f \<Rightarrow> 'f"
  f64_mul :: "'f \<Rightarrow> 'f \<Rightarrow> 'f"
  f64_div :: "'f \<Rightarrow> 'f \<Rightarrow> 'f"
  f64_eq :: "'f \<Rightarrow> 'f \<Rightarrow> bool"
  f64_lt :: "'f \<Rightarrow> 'f \<Rightarrow> bool"
  f64_le :: "'f \<Rightarrow> 'f \<Rightarrow> bool"
  f64_zero :: "'f"
  f64_of_int64 :: "64 word \<Rightarrow> 'f"
  f64_of_uint64 :: "64 word \<Rightarrow> 'f"
  f64_value :: "'f \<Rightarrow> real option"
  int64_unrepresentable :: "'f \<Rightarrow> 64 word"
  Number_Int64 :: "string \<Rightarrow> error + 64 word"
  Number_Float64 :: "string \<Rightarrow> error + 'f"
  cmp_Equal :: "'f boxed \<Rightarrow> 'f boxed \<Rightarrow> bool"

text \<open>
  Go's conversion \<^verbatim>\<open>int64(f)\<close> of a float: the fraction is discarded, truncating
  towards zero; the result is the integer so obtained when it is an \<^verbatim>\<open>int64\<close>, and
  implementation-dependent otherwise.
\<close>

definition trunc_toward_zero :: "real \<Rightarrow> int" where
  "trunc_toward_zero r = (if 0 \<le> r then \<lfloor>r\<rfloor> else \<lceil>r\<rceil>)"

definition int64_range :: "int \<Rightarrow> bool" where
  "int64_range k = (- (2 ^ 63) \<le> k \<and> k < 2 ^ 63)"

definition int64_of_f64 :: "'f go_env \<Rightarrow> 'f \<Rightarrow> 64 word" where
  "int64_of_f64 E f =
     (case f64_value E f of
        None \<Rightarrow> int64_unrepresentable E f
      | Some r \<Rightarrow>
          if int64_range (trunc_toward_zero r) then word_of_int (trunc_toward_zero r)
          else int64_unrepresentable E f)"

fun IGetNumber :: "'f go_env \<Rightarrow> 'f boxed \<Rightarrow> error + 'f" where
  "IGetNumber E (BInt t) = Inr (f64_of_int64 E t)"
| "IGetNumber E (BInt64 t) = Inr (f64_of_int64 E t)"
| "IGetNumber E (BUint64 t) = Inr (f64_of_uint64 E t)"
| "IGetNumber E (BFloat64 t) = Inr t"
| "IGetNumber E (BJsonNumber t) = Number_Float64 E t"
| "IGetNumber E v = Inl (NewTypeError v [ValueNumber])"

fun IGetInt :: "'f go_env \<Rightarrow> 'f boxed \<Rightarrow> error + 64 word" where
  "IGetInt E (BInt t) = Inr t"
| "IGetInt E (BInt64 t) = Inr t"
| "IGetInt E (BUint64 t) = Inr t"
| "IGetInt E (BFloat64 t) = Inr (int64_of_f64 E t)"
| "IGetInt E (BJsonNumber t) =
     (case Number_Int64 E t of
        Inr i \<Rightarrow> Inr i
      | Inl err \<Rightarrow>
          (case Number_Float64 E t of
             Inr f \<Rightarrow> Inr (int64_of_f64 E f)
           | Inl ferr \<Rightarrow> Inl err))"
| "IGetInt E v = Inl (NewTypeError v [ValueNumber])"

fun IGetBool :: "'f go_env \<Rightarrow> 'f boxed \<Rightarrow> error + bool" where
  "IGetBool E (BBool t) = Inr t"
| "IGetBool E (BInt t) = Inr (t \<noteq> 0)"
| "IGetBool E (BInt64 t) = Inr (t \<noteq> 0)"
| "IGetBool E (BUint64 t) = Inr (t \<noteq> 0)"
| "IGetBool E (BFloat64 t) = Inr (\<not> f64_eq E t (f64_zero E))"
| "IGetBool E (BJsonNumber t) = Inr (t \<noteq> ''0'')"
| "IGetBool E v = Inl (NewTypeError v [ValueBool])"

fun IGetString :: "'f boxed \<Rightarrow> error + string" where
  "IGetString (BString t) = Inr t"
| "IGetString (BBytes t) = Inr t"
| "IGetString v = Inl (NewTypeError v [ValueString])"

fun IIsNull :: "'f boxed \<Rightarrow> bool" where
  "IIsNull BNil = True"
| "IIsNull BDelete = True"
| "IIsNull BNothing = True"
| "IIsNull _ = False"

fun ISanitize :: "'f go_env \<Rightarrow> 'f boxed \<Rightarrow> 'f boxed" where
  "ISanitize E (BString t) = BString t"
| "ISanitize E (BBytes t) = BBytes t"
| "ISanitize E (BInt64 t) = BInt64 t"
| "ISanitize E (BUint64 t) = BUint64 t"
| "ISanitize E (BFloat64 t) = BFloat64 t"
| "ISanitize E (BBool t) = BBool t"
| "ISanitize E (BArray t) = BArray t"
| "ISanitize E (BObject t) = BObject t"
| "ISanitize E BDelete = BDelete"
| "ISanitize E BNothing = BNothing"
| "ISanitize E (BRawMessage t) = BBytes t"
| "ISanitize E (BJsonNumber t) =
     (case Number_Int64 E t of
        Inr i \<Rightarrow> BInt64 i
      | Inl _ \<Rightarrow>
          (case Number_Float64 E t of
             Inr f \<Rightarrow> BFloat64 f
           | Inl _ \<Rightarrow> BString t))"
| "ISanitize E (BTime t) = BString t"
| "ISanitize E (BInt t) = BInt64 t"
| "ISanitize E (BInt32 t) = BInt64 (scast t)"
| "ISanitize E (BUint32 t) = BUint64 (ucast t)"
| "ISanitize E (BUint t) = BUint64 t"
| "ISanitize E (BFloat32 t) = BFloat64 t"
| "ISanitize E BNil = BNil"
| "ISanitize E BUnknown = BNil"


section \<open>Arithmetic operators (internal/bloblang/query/arithmetic.go)\<close>

type_synonym 'f arithmeticOpFunc = "'f boxed \<Rightarrow> 'f boxed \<Rightarrow> error + 'f boxed"

text \<open>
  A query function is either a \<^verbatim>\<open>*Literal\<close>, which the builder recognises by a type
  assertion, or a closure over the evaluation context \<open>'c\<close>, which the arithmetic
  layer never inspects. Only \<^verbatim>\<open>Exec\<close> is modelled; the target paths of a function
  (\<^verbatim>\<open>QueryTargets\<close>) play no part in evaluation.

  Modelled from the spec: \<^verbatim>\<open>Literal\<close>, \<^verbatim>\<open>NewLiteralFunction\<close> and \<^verbatim>\<open>ClosureFunction\<close>
  are declared in a file of the package that is not among the sources; a literal
  "returns \<open>v\<close>", a closure "wraps a native function".
\<close>

datatype ('f, 'c) Function =
    Literal "'f boxed"
  | ClosureFunction "'c \<Rightarrow> error + 'f boxed"

fun Exec :: "('f, 'c) Function \<Rightarrow> 'c \<Rightarrow> error + 'f boxed" where
  "Exec (Literal v) ctx = Inr v"
| "Exec (ClosureFunction fn) ctx = fn ctx"

definition NewLiteralFunction :: "'f boxed \<Rightarrow> ('f, 'c) Function" where
  "NewLiteralFunction v = Literal v"

text \<open>The closure \<^verbatim>\<open>arithmeticFunc\<close> returns when an operand is not a literal.\<close>

definition arithmeticClosure ::
  "('f, 'c) Function \<Rightarrow> ('f, 'c) Function \<Rightarrow> 'f arithmeticOpFunc \<Rightarrow> ('f, 'c) Function" where
  "arithmeticClosure lhs rhs op =
     ClosureFunction (\<lambda>ctx.
       case Exec lhs ctx of
         Inl err \<Rightarrow> Inl err
       | Inr leftV \<Rightarrow>
           (case Exec rhs ctx of
              Inl err \<Rightarrow> Inl err
            | Inr rightV \<Rightarrow> op leftV rightV))"

fun arithmeticFunc ::
  "('f, 'c) Function \<Rightarrow> ('f, 'c) Function \<Rightarrow> 'f arithmeticOpFunc \<Rightarrow> error + ('f, 'c) Function" where
  "arithmeticFunc (Literal litL) (Literal litR) op =
     (case op litL litR of
        Inl err \<Rightarrow> Inl err
      | Inr res \<Rightarrow> Inr (NewLiteralFunction res))"
| "arithmeticFunc lhs rhs op = Inr (arithmeticClosure lhs rhs op)"

text \<open>
  \<^verbatim>\<open>numberDegradationFunc\<close>: the integer function when both operands are integers
  after \<^verbatim>\<open>ISanitize\<close>, the float function when either is a float.
\<close>

definition numberDegradationFunc ::
  "'f go_env \<Rightarrow> (64 word \<Rightarrow> 64 word \<Rightarrow> error + 64 word) \<Rightarrow> ('f \<Rightarrow> 'f \<Rightarrow> error + 'f)
     \<Rightarrow> 'f arithmeticOpFunc" where
  "numberDegradationFunc E iFn fFn left0 right0 =
     (let left = ISanitize E left0; right = ISanitize E right0 in
      case left of
        BFloat64 leftFloat \<Rightarrow>
          (case IGetNumber E right of
             Inl err \<Rightarrow> Inl err
           | Inr rightFloat \<Rightarrow> map_sum id BFloat64 (fFn leftFloat rightFloat))
      | _ \<Rightarrow>
          (case right of
             BFloat64 rightFloat \<Rightarrow>
               (case IGetNumber E left of
                  Inl err \<Rightarrow> Inl err
                | Inr leftFloat \<Rightarrow> map_sum id BFloat64 (fFn leftFloat rightFloat))
           | _ \<Rightarrow>
               (case IGetInt E left of
                  Inl err \<Rightarrow> Inl err
                | Inr leftInt \<Rightarrow>
                    (case IGetInt E right of
                       Inl err \<Rightarrow> Inl err
                     | Inr rightInt \<Rightarrow> map_sum id BInt64 (iFn leftInt rightInt)))))"

text \<open>Go's \<^verbatim>\<open>%\<close> on \<^verbatim>\<open>int64\<close>: the remainder of the division that truncates towards zero.\<close>

definition int64_rem :: "64 word \<Rightarrow> 64 word \<Rightarrow> 64 word" where
  "int64_rem a b = word_of_int (sint a smod sint b)"

definition mulOp :: "'f go_env \<Rightarrow> 'f arithmeticOpFunc" where
  "mulOp E = numberDegradationFunc E (\<lambda>lhs rhs. Inr (lhs * rhs)) (\<lambda>lhs rhs. Inr (f64_mul E lhs rhs))"

definition divOp :: "'f go_env \<Rightarrow> 'f arithmeticOpFunc" where
  "divOp E left right =
     (case IGetNumber E left of
        Inl err \<Rightarrow> Inl err
      | Inr lhs \<Rightarrow>
          (case IGetNumber E right of
             Inl err \<Rightarrow> Inl err
           | Inr rhs \<Rightarrow>
               if f64_eq E rhs (f64_zero E) then Inl ErrDivideByZero
               else Inr (BFloat64 (f64_div E lhs rhs))))"

definition modOp :: "'f go_env \<Rightarrow> 'f arithmeticOpFunc" where
  "modOp E left right =
     (case IGetInt E left of
        Inl err \<Rightarrow> Inl err
      | Inr lhs \<Rightarrow>
          (case IGetInt E right of
             Inl err \<Rightarrow> Inl err
           | Inr rhs \<Rightarrow>
               if rhs = 0 then Inl ErrDivideByZero
               else Inr (BInt64 (int64_rem lhs rhs))))"

fun prodOp :: "'f go_env \<Rightarrow> ArithmeticOperator \<Rightarrow> 'f arithmeticOpFunc option" where
  "prodOp E ArithmeticMul = Some (mulOp E)"
| "prodOp E ArithmeticDiv = Some (divOp E)"
| "prodOp E ArithmeticMod = Some (modOp E)"
| "prodOp E _ = None"

definition numberAdd :: "'f go_env \<Rightarrow> 'f arithmeticOpFunc" where
  "numberAdd E =
     numberDegradationFunc E (\<lambda>left right. Inr (left + right))
       (\<lambda>left right. Inr (f64_add E left right))"

fun addOp :: "'f go_env \<Rightarrow> 'f arithmeticOpFunc" where
  "addOp E (BFloat64 l) right = numberAdd E (BFloat64 l) right"
| "addOp E (BInt l) right = numberAdd E (BInt l) right"
| "addOp E (BInt64 l) right = numberAdd E (BInt64 l) right"
| "addOp E (BUint64 l) right = numberAdd E (BUint64 l) right"
| "addOp E (BJsonNumber l) right = numberAdd E (BJsonNumber l) right"
| "addOp E (BString l) right =
     (case IGetString (BString l :: 'f boxed) of
        Inl err \<Rightarrow> Inl err
      | Inr lhs \<Rightarrow>
          (case IGetString right of
             Inl err \<Rightarrow> Inl err
           | Inr rhs \<Rightarrow> Inr (BString (lhs @ rhs))))"
| "addOp E (BBytes l) right =
     (case IGetString (BBytes l :: 'f boxed) of
        Inl err \<Rightarrow> Inl err
      | Inr lhs \<Rightarrow>
          (case IGetString right of
             Inl err \<Rightarrow> Inl err
           | Inr rhs \<Rightarrow> Inr (BString (lhs @ rhs))))"
| "addOp E left right = Inl (NewTypeError left [ValueNumber, ValueString])"

definition subOp :: "'f go_env \<Rightarrow> 'f arithmeticOpFunc" where
  "subOp E = numberDegradationFunc E (\<lambda>lhs rhs. Inr (lhs - rhs)) (\<lambda>lhs rhs. Inr (f64_sub E lhs rhs))"

fun sumOp :: "'f go_env \<Rightarrow> ArithmeticOperator \<Rightarrow> 'f arithmeticOpFunc option" where
  "sumOp E ArithmeticAdd = Some (addOp E)"
| "sumOp E ArithmeticSub = Some (subOp E)"
| "sumOp E _ = None"


subsection \<open>Comparison\<close>

text \<open>Go compares strings byte by byte, a proper prefix being smaller.\<close>

fun str_less :: "string \<Rightarrow> string \<Rightarrow> bool" where
  "str_less [] [] = False"
| "str_less [] (y # ys) = True"
| "str_less (x # xs) [] = False"
| "str_less (x # xs) (y # ys) =
     ((of_char x :: nat) < of_char y \<or> (x = y \<and> str_less xs ys))"

fun compareNumFn :: "'f go_env \<Rightarrow> ArithmeticOperator \<Rightarrow> ('f \<Rightarrow> 'f \<Rightarrow> bool) option" where
  "compareNumFn E ArithmeticEq = Some (\<lambda>lhs rhs. f64_eq E lhs rhs)"
| "compareNumFn E ArithmeticNeq = Some (\<lambda>lhs rhs. \<not> f64_eq E lhs rhs)"
| "compareNumFn E ArithmeticGt = Some (\<lambda>lhs rhs. f64_lt E rhs lhs)"
| "compareNumFn E ArithmeticGte = Some (\<lambda>lhs rhs. f64_le E rhs lhs)"
| "compareNumFn E ArithmeticLt = Some (\<lambda>lhs rhs. f64_lt E lhs rhs)"
| "compareNumFn E ArithmeticLte = Some (\<lambda>lhs rhs. f64_le E lhs rhs)"
| "compareNumFn E _ = None"

fun compareStrFn :: "ArithmeticOperator \<Rightarrow> (string \<Rightarrow> string \<Rightarrow> bool) option" where
  "compareStrFn ArithmeticEq = Some (\<lambda>lhs rhs. lhs = rhs)"
| "compareStrFn ArithmeticNeq = Some (\<lambda>lhs rhs. lhs \<noteq> rhs)"
| "compareStrFn ArithmeticGt = Some (\<lambda>lhs rhs. str_less rhs lhs)"
| "compareStrFn ArithmeticGte = Some (\<lambda>lhs rhs. str_less rhs lhs \<or> lhs = rhs)"
| "compareStrFn ArithmeticLt = Some (\<lambda>lhs rhs. str_less lhs rhs)"
| "compareStrFn ArithmeticLte = Some (\<lambda>lhs rhs. str_less lhs rhs \<or> lhs = rhs)"
| "compareStrFn _ = None"

fun compareBoolFn :: "ArithmeticOperator \<Rightarrow> (bool \<Rightarrow> bool \<Rightarrow> bool) option" where
  "compareBoolFn ArithmeticEq = Some (\<lambda>lhs rhs. lhs = rhs)"
| "compareBoolFn ArithmeticNeq = Some (\<lambda>lhs rhs. lhs \<noteq> rhs)"
| "compareBoolFn _ = None"

fun compareGenericFn ::
  "'f go_env \<Rightarrow> ArithmeticOperator \<Rightarrow> ('f boxed \<Rightarrow> 'f boxed \<Rightarrow> bool) option" where
  "compareGenericFn E ArithmeticEq = Some (\<lambda>lhs rhs. cmp_Equal E lhs rhs)"
| "compareGenericFn E ArithmeticNeq = Some (\<lambda>lhs rhs. \<not> cmp_Equal E lhs rhs)"
| "compareGenericFn E _ = None"

definition restrictForComparison :: "'f go_env \<Rightarrow> 'f boxed \<Rightarrow> 'f boxed" where
  "restrictForComparison E v0 =
     (let v = ISanitize E v0 in
      case v of
        BInt64 t \<Rightarrow> BFloat64 (f64_of_int64 E t)
      | BUint64 t \<Rightarrow> BFloat64 (f64_of_uint64 E t)
      | BJsonNumber t \<Rightarrow>
          (case IGetNumber E (BJsonNumber t) of
             Inr f \<Rightarrow> BFloat64 f
           | Inl _ \<Rightarrow> v)
      | BBytes t \<Rightarrow> BString t
      | _ \<Rightarrow> v)"

text \<open>The closure \<^verbatim>\<open>compareOp\<close> returns for one of the six comparison operators.\<close>

definition compareFunc :: "'f go_env \<Rightarrow> ArithmeticOperator \<Rightarrow> 'f arithmeticOpFunc" where
  "compareFunc E op left right =
     (case restrictForComparison E left of
        BString lhs \<Rightarrow>
          (case compareStrFn op of
             None \<Rightarrow> Inl (NewTypeError left [])
           | Some strOpFn \<Rightarrow>
               (case IGetString right of
                  Inl err \<Rightarrow> if op = ArithmeticNeq then Inr (BBool True) else Inl err
                | Inr rhs \<Rightarrow> Inr (BBool (strOpFn lhs rhs))))
      | BFloat64 lhs \<Rightarrow>
          (case compareNumFn E op of
             None \<Rightarrow> Inl (NewTypeError left [])
           | Some numOpFn \<Rightarrow>
               (case IGetNumber E right of
                  Inl err \<Rightarrow> if op = ArithmeticNeq then Inr (BBool True) else Inl err
                | Inr rhs \<Rightarrow> Inr (BBool (numOpFn lhs rhs))))
      | BBool lhs \<Rightarrow>
          (case compareBoolFn op of
             None \<Rightarrow> Inl (NewTypeError left [])
           | Some boolOpFn \<Rightarrow>
               (case IGetBool E right of
                  Inl err \<Rightarrow> if op = ArithmeticNeq then Inr (BBool True) else Inl err
                | Inr rhs \<Rightarrow> Inr (BBool (boolOpFn lhs rhs))))
      | _ \<Rightarrow>
          (case compareGenericFn E op of
             None \<Rightarrow> Inl (NewTypeError left [])
           | Some genericOpFn \<Rightarrow> Inr (BBool (genericOpFn left right))))"

fun compareOp :: "'f go_env \<Rightarrow> ArithmeticOperator \<Rightarrow> 'f arithmeticOpFunc option" where
  "compareOp E ArithmeticEq = Some (compareFunc E ArithmeticEq)"
| "compareOp E ArithmeticNeq = Some (compareFunc E ArithmeticNeq)"
| "compareOp E ArithmeticGt = Some (compareFunc E ArithmeticGt)"
| "compareOp E ArithmeticGte = Some (compareFunc E ArithmeticGte)"
| "compareOp E ArithmeticLt = Some (compareFunc E ArithmeticLt)"
| "compareOp E ArithmeticLte = Some (compareFunc E ArithmeticLte)"
| "compareOp E _ = None"

subsection \<open>Boolean operators and coalesce\<close>

definition boolOr ::
  "'f go_env \<Rightarrow> ('f, 'c) Function \<Rightarrow> ('f, 'c) Function \<Rightarrow> ('f, 'c) Function" where
  "boolOr E lhs rhs =
     ClosureFunction (\<lambda>ctx.
       case Exec lhs ctx of
         Inl err \<Rightarrow> Inl err
       | Inr lhsV \<Rightarrow>
           (case IGetBool E lhsV of
              Inl err \<Rightarrow> Inl err
            | Inr b \<Rightarrow>
                if b then Inr (BBool True)
                else
                  (case Exec rhs ctx of
                     Inl err \<Rightarrow> Inl err
                   | Inr rhsV \<Rightarrow>
                       (case IGetBool E rhsV of
                          Inl err \<Rightarrow> Inl err
                        | Inr b' \<Rightarrow> Inr (BBool b')))))"

definition boolAnd ::
  "'f go_env \<Rightarrow> ('f, 'c) Function \<Rightarrow> ('f, 'c) Function \<Rightarrow> ('f, 'c) Function" where
  "boolAnd E lhs rhs =
     ClosureFunction (\<lambda>ctx.
       case Exec lhs ctx of
         Inl err \<Rightarrow> Inl err
       | Inr lhsV \<Rightarrow>
           (case IGetBool E lhsV of
              Inl err \<Rightarrow> Inl err
            | Inr b \<Rightarrow>
                if \<not> b then Inr (BBool False)
                else
                  (case Exec rhs ctx of
                     Inl err \<Rightarrow> Inl err
                   | Inr rhsV \<Rightarrow>
                       (case IGetBool E rhsV of
                          Inl err \<Rightarrow> Inl err
                        | Inr b' \<Rightarrow> Inr (BBool b')))))"

definition coalesce :: "('f, 'c) Function \<Rightarrow> ('f, 'c) Function \<Rightarrow> ('f, 'c) Function" where
  "coalesce lhs rhs =
     ClosureFunction (\<lambda>ctx.
       case Exec lhs ctx of
         Inr lhsV \<Rightarrow> if \<not> IIsNull lhsV then Inr lhsV else Exec rhs ctx
       | Inl err \<Rightarrow> Exec rhs ctx)"

subsection \<open>The precedence resolver\<close>

text \<open>
  The four loops of \<^verbatim>\<open>NewArithmeticExpression\<close> have one shape: walk \<open>ops\<close> with
  the index \<open>i\<close>; an operator of the pass combines the last element of \<open>fnsNew\<close>
  with \<open>fns[i+1]\<close> (the builder may fail), any other operator is appended to
  \<open>opsNew\<close> and \<open>fns[i+1]\<close> to \<open>fnsNew\<close>. \<open>pass_loop\<close> is that loop, the body's choice
  being the parameter \<open>step\<close>; an index out of range is the panic it would be.
\<close>

type_synonym ('f, 'c) combiner =
  "('f, 'c) Function \<Rightarrow> ('f, 'c) Function \<Rightarrow> error + ('f, 'c) Function"

fun pass_loop ::
  "(ArithmeticOperator \<Rightarrow> ('f, 'c) combiner option) \<Rightarrow> ('f, 'c) Function list
     \<Rightarrow> ('f, 'c) Function list \<Rightarrow> ArithmeticOperator list \<Rightarrow> nat \<Rightarrow> ArithmeticOperator list
     \<Rightarrow> error + (('f, 'c) Function list \<times> ArithmeticOperator list)" where
  "pass_loop step fns fnsNew opsNew i [] = Inr (fnsNew, opsNew)"
| "pass_loop step fns fnsNew opsNew i (op # ops) =
     (if i + 1 < length fns \<and> fnsNew \<noteq> [] then
        (case step op of
           Some comb \<Rightarrow>
             (case comb (last fnsNew) (fns ! (i + 1)) of
                Inl err \<Rightarrow> Inl err
              | Inr fn \<Rightarrow> pass_loop step fns (butlast fnsNew @ [fn]) opsNew (i + 1) ops)
         | None \<Rightarrow> pass_loop step fns (fnsNew @ [fns ! (i + 1)]) (opsNew @ [op]) (i + 1) ops)
      else Inl IndexPanic)"

definition prod_step :: "'f go_env \<Rightarrow> ArithmeticOperator \<Rightarrow> ('f, 'c) combiner option" where
  "prod_step E op =
     (case prodOp E op of
        Some opFunc \<Rightarrow> Some (\<lambda>lhs rhs. arithmeticFunc lhs rhs opFunc)
      | None \<Rightarrow>
          if op = ArithmeticPipe then Some (\<lambda>lhs rhs. Inr (coalesce lhs rhs)) else None)"

definition sum_step :: "'f go_env \<Rightarrow> ArithmeticOperator \<Rightarrow> ('f, 'c) combiner option" where
  "sum_step E op =
     (case sumOp E op of
        Some opFunc \<Rightarrow> Some (\<lambda>lhs rhs. arithmeticFunc lhs rhs opFunc)
      | None \<Rightarrow> None)"

definition compare_step :: "'f go_env \<Rightarrow> ArithmeticOperator \<Rightarrow> ('f, 'c) combiner option" where
  "compare_step E op =
     (case compareOp E op of
        Some opFunc \<Rightarrow> Some (\<lambda>lhs rhs. arithmeticFunc lhs rhs opFunc)
      | None \<Rightarrow> None)"

fun bool_step :: "'f go_env \<Rightarrow> ArithmeticOperator \<Rightarrow> ('f, 'c) combiner option" where
  "bool_step E ArithmeticAnd = Some (\<lambda>lhs rhs. Inr (boolAnd E lhs rhs))"
| "bool_step E ArithmeticOr = Some (\<lambda>lhs rhs. Inr (boolOr E lhs rhs))"
| "bool_step E _ = None"

definition NewArithmeticExpression ::
  "'f go_env \<Rightarrow> ('f, 'c) Function list \<Rightarrow> ArithmeticOperator list \<Rightarrow> error + ('f, 'c) Function" where
  "NewArithmeticExpression E fns ops =
     (if length fns = 1 \<and> length ops = 0 then Inr (fns ! 0)
      else if length fns \<noteq> length ops + 1 then Inl (MismatchError (length fns) (length ops))
      else
        case pass_loop (prod_step E) fns [fns ! 0] [] 0 ops of
          Inl err \<Rightarrow> Inl err
        | Inr (fns1, ops1) \<Rightarrow>
            if length fns1 = 1 then Inr (fns1 ! 0)
            else
              (case pass_loop (sum_step E) fns1 [fns1 ! 0] [] 0 ops1 of
                 Inl err \<Rightarrow> Inl err
               | Inr (fns2, ops2) \<Rightarrow>
                   if length fns2 = 1 then Inr (fns2 ! 0)
                   else
                     (case pass_loop (compare_step E) fns2 [fns2 ! 0] [] 0 ops2 of
                        Inl err \<Rightarrow> Inl err
                      | Inr (fns3, ops3) \<Rightarrow>
                          if length fns3 = 1 then Inr (fns3 ! 0)
                          else
                            (case pass_loop (bool_step E) fns3 [fns3 ! 0] [] 0 ops3 of
                               Inl err \<Rightarrow> Inl err
                             | Inr (fns4, ops4) \<Rightarrow>
                                 if length fns4 = 1 then Inr (fns4 ! 0)
                                 else Inl (UnresolvedError ops4)))))"


section \<open>Argument specifications (public/bloblang/arguments.go)\<close>

text \<open>
  An \<^verbatim>\<open>ArgSpec\<close> holds the number of registered arguments and one validator per
  argument. A validator reads \<open>args[index]\<close> and writes through the pointer it was
  registered with; pointers are addresses into a store of typed cells, so that two
  registrations of one pointer alias as they do in Go. A validator returns the error
  (if any) together with the store, since writes made before a failure remain.
  The fields are \<open>argN\<close> and \<open>argValidators\<close> for the source's \<^verbatim>\<open>n\<close> and
  \<^verbatim>\<open>validators\<close>.
\<close>

datatype 'f cell =
    IntCell "64 word"
  | Int64Cell "64 word"
  | Float64Cell 'f
  | BoolCell bool
  | StringCell string
  | AnyCell "'f boxed"

type_synonym 'f store = "nat \<Rightarrow> 'f cell option"

type_synonym 'f validator = "'f boxed list \<Rightarrow> 'f store \<Rightarrow> error option \<times> 'f store"

record 'f ArgSpec =
  argN :: nat
  argValidators :: "'f validator list"

definition NewArgSpec :: "'f ArgSpec" where
  "NewArgSpec = \<lparr>argN = 0, argValidators = []\<rparr>"

fun run_validators :: "'f validator list \<Rightarrow> 'f boxed list \<Rightarrow> 'f store \<Rightarrow> error option \<times> 'f store" where
  "run_validators [] args st = (None, st)"
| "run_validators (v # vs) args st =
     (case v args st of
        (Some err, st') \<Rightarrow> (Some err, st')
      | (None, st') \<Rightarrow> run_validators vs args st')"

definition Extract :: "'f ArgSpec \<Rightarrow> 'f boxed list \<Rightarrow> 'f store \<Rightarrow> error option \<times> 'f store" where
  "Extract a args st =
     (if length args \<noteq> argN a then (Some (ArgCountError (argN a) (length args)), st)
      else run_validators (argValidators a) args st)"

text \<open>
  The body shared by the six registration methods: take the next index, count the
  argument, append the validator. \<open>get\<close> is the typed extraction of the method and
  yields the cell to store through the pointer; \<open>arg_validator\<close> is the closure the
  method appends.
\<close>

definition arg_validator ::
  "('f boxed \<Rightarrow> error + 'f cell) \<Rightarrow> nat \<Rightarrow> nat \<Rightarrow> 'f validator" where
  "arg_validator get index ptr args st =
     (if index < length args then
        (case get (args ! index) of
           Inl err \<Rightarrow> (Some (BadArgument index err), st)
         | Inr c \<Rightarrow> (None, st(ptr \<mapsto> c)))
      else (Some IndexPanic, st))"

definition register ::
  "('f boxed \<Rightarrow> error + 'f cell) \<Rightarrow> nat \<Rightarrow> 'f ArgSpec \<Rightarrow> 'f ArgSpec" where
  "register get ptr a =
     (let index = argN a in
      a\<lparr>argN := argN a + 1,
        argValidators := argValidators a @ [arg_validator get index ptr]\<rparr>)"

definition IntVar :: "'f go_env \<Rightarrow> nat \<Rightarrow> 'f ArgSpec \<Rightarrow> 'f ArgSpec" where
  "IntVar E i = register (\<lambda>v. map_sum id IntCell (IGetInt E v)) i"

definition Int64Var :: "'f go_env \<Rightarrow> nat \<Rightarrow> 'f ArgSpec \<Rightarrow> 'f ArgSpec" where
  "Int64Var E i = register (\<lambda>v. map_sum id Int64Cell (IGetInt E v)) i"

definition Float64Var :: "'f go_env \<Rightarrow> nat \<Rightarrow> 'f ArgSpec \<Rightarrow> 'f ArgSpec" where
  "Float64Var E f = register (\<lambda>v. map_sum id Float64Cell (IGetNumber E v)) f"

definition BoolVar :: "'f go_env \<Rightarrow> nat \<Rightarrow> 'f ArgSpec \<Rightarrow> 'f ArgSpec" where
  "BoolVar E b = register (\<lambda>v. map_sum id BoolCell (IGetBool E v)) b"

definition StringVar :: "nat \<Rightarrow> 'f ArgSpec \<Rightarrow> 'f ArgSpec" where
  "StringVar s = register (\<lambda>v. map_sum id StringCell (IGetString v)) s"

definition AnyVar :: "nat \<Rightarrow> 'f ArgSpec \<Rightarrow> 'f ArgSpec" where
  "AnyVar i = register (\<lambda>v. Inr (AnyCell v)) i"

text \<open>
  A specification is built from \<^verbatim>\<open>NewArgSpec()\<close> by a chain of registration calls;
  \<open>argdecl\<close> names one call with its pointer, \<open>declare_arg\<close> performs it, and
  \<open>typed_extraction\<close> is the extraction the call's argument type stands for.
\<close>

datatype argdecl =
    DeclInt nat | DeclInt64 nat | DeclFloat64 nat | DeclBool nat | DeclString nat | DeclAny nat

fun decl_ptr :: "argdecl \<Rightarrow> nat" where
  "decl_ptr (DeclInt p) = p"
| "decl_ptr (DeclInt64 p) = p"
| "decl_ptr (DeclFloat64 p) = p"
| "decl_ptr (DeclBool p) = p"
| "decl_ptr (DeclString p) = p"
| "decl_ptr (DeclAny p) = p"

fun declare_arg :: "'f go_env \<Rightarrow> 'f ArgSpec \<Rightarrow> argdecl \<Rightarrow> 'f ArgSpec" where
  "declare_arg E a (DeclInt p) = IntVar E p a"
| "declare_arg E a (DeclInt64 p) = Int64Var E p a"
| "declare_arg E a (DeclFloat64 p) = Float64Var E p a"
| "declare_arg E a (DeclBool p) = BoolVar E p a"
| "declare_arg E a (DeclString p) = StringVar p a"
| "declare_arg E a (DeclAny p) = AnyVar p a"

definition build_spec :: "'f go_env \<Rightarrow> argdecl list \<Rightarrow> 'f ArgSpec" where
  "build_spec E ds = foldl (declare_arg E) NewArgSpec ds"

fun typed_extraction :: "'f go_env \<Rightarrow> argdecl \<Rightarrow> 'f boxed \<Rightarrow> error + 'f cell" where
  "typed_extraction E (DeclInt p) v = map_sum id IntCell (IGetInt E v)"
| "typed_extraction E (DeclInt64 p) v = map_sum id Int64Cell (IGetInt E v)"
| "typed_extraction E (DeclFloat64 p) v = map_sum id Float64Cell (IGetNumber E v)"
| "typed_extraction E (DeclBool p) v = map_sum id BoolCell (IGetBool E v)"
| "typed_extraction E (DeclString p) v = map_sum id StringCell (IGetString v)"
| "typed_extraction E (DeclAny p) v = Inr (AnyCell v)"


text \<open>
  For the proofs: the validator that the registration \<open>d\<close> appends at \<open>index\<close>, and
  the run of the validators of the registrations \<open>ds\<close>, the first of them at index
  \<open>k\<close>.
\<close>

definition decl_validator :: "'f go_env \<Rightarrow> nat \<Rightarrow> argdecl \<Rightarrow> 'f validator" where
  "decl_validator E index d = arg_validator (typed_extraction E d) index (decl_ptr d)"

definition run_decls ::
  "'f go_env \<Rightarrow> nat \<Rightarrow> argdecl list \<Rightarrow> 'f boxed list \<Rightarrow> 'f store \<Rightarrow> error option \<times> 'f store" where
  "run_decls E k ds args st = run_validators (map (\<lambda>(k, d). decl_validator E k d) (enumerate k ds)) args st"

section \<open>Operator precedence as the specification states it\<close>

text \<open>
  These definitions follow the specification, not the source; the resolver of the
  source is compared with them. \<open>spec_precedence\<close> is the precedence table:
  \<^verbatim>\<open>*\<close>, \<^verbatim>\<open>/\<close>, \<^verbatim>\<open>%\<close> and \<^verbatim>\<open>|\<close> bind tightest (0), then \<^verbatim>\<open>+\<close> and \<^verbatim>\<open>-\<close> (1), then
  the comparisons (2), then \<^verbatim>\<open>&&\<close> and \<^verbatim>\<open>||\<close> (3). An expression tree is grouped by
  the table when the operator at the root of a right operand binds strictly tighter
  than the node's operator, and the one at the root of a left operand at least as
  tight (operators of one level associate to the left). \<open>tree_fns\<close> and \<open>tree_ops\<close>
  read the flat sequence of a tree from left to right. \<open>spec_combine\<close> is the node of
  one operator applied to two built operands, and \<open>spec_build\<close> builds a tree from
  the leaves up.
\<close>

datatype 'a expr_tree = Leaf 'a | Node ArithmeticOperator "'a expr_tree" "'a expr_tree"

fun spec_precedence :: "ArithmeticOperator \<Rightarrow> nat" where
  "spec_precedence ArithmeticMul = 0"
| "spec_precedence ArithmeticDiv = 0"
| "spec_precedence ArithmeticMod = 0"
| "spec_precedence ArithmeticPipe = 0"
| "spec_precedence ArithmeticAdd = 1"
| "spec_precedence ArithmeticSub = 1"
| "spec_precedence ArithmeticEq = 2"
| "spec_precedence ArithmeticNeq = 2"
| "spec_precedence ArithmeticGt = 2"
| "spec_precedence ArithmeticGte = 2"
| "spec_precedence ArithmeticLt = 2"
| "spec_precedence ArithmeticLte = 2"
| "spec_precedence ArithmeticAnd = 3"
| "spec_precedence ArithmeticOr = 3"

fun spec_rank :: "'a expr_tree \<Rightarrow> nat" where
  "spec_rank (Leaf a) = 0"
| "spec_rank (Node op l r) = Suc (spec_precedence op)"

fun spec_grouped :: "'a expr_tree \<Rightarrow> bool" where
  "spec_grouped (Leaf a) = True"
| "spec_grouped (Node op l r) =
     (spec_grouped l \<and> spec_grouped r \<and> spec_rank l \<le> Suc (spec_precedence op) \<and> spec_rank r \<le> spec_precedence op)"

fun tree_fns :: "'a expr_tree \<Rightarrow> 'a list" where
  "tree_fns (Leaf a) = [a]"
| "tree_fns (Node op l r) = tree_fns l @ tree_fns r"

fun tree_ops :: "'a expr_tree \<Rightarrow> ArithmeticOperator list" where
  "tree_ops (Leaf a) = []"
| "tree_ops (Node op l r) = tree_ops l @ op # tree_ops r"

fun spec_combine :: "'f go_env \<Rightarrow> ArithmeticOperator \<Rightarrow> ('f, 'c) combiner" where
  "spec_combine E ArithmeticMul lhs rhs = arithmeticFunc lhs rhs (mulOp E)"
| "spec_combine E ArithmeticDiv lhs rhs = arithmeticFunc lhs rhs (divOp E)"
| "spec_combine E ArithmeticMod lhs rhs = arithmeticFunc lhs rhs (modOp E)"
| "spec_combine E ArithmeticPipe lhs rhs = Inr (coalesce lhs rhs)"
| "spec_combine E ArithmeticAdd lhs rhs = arithmeticFunc lhs rhs (addOp E)"
| "spec_combine E ArithmeticSub lhs rhs = arithmeticFunc lhs rhs (subOp E)"
| "spec_combine E ArithmeticAnd lhs rhs = Inr (boolAnd E lhs rhs)"
| "spec_combine E ArithmeticOr lhs rhs = Inr (boolOr E lhs rhs)"
| "spec_combine E op lhs rhs = arithmeticFunc lhs rhs (compareFunc E op)"

fun spec_build :: "'f go_env \<Rightarrow> ('f, 'c) Function expr_tree \<Rightarrow> error + ('f, 'c) Function" where
  "spec_build E (Leaf fn) = Inr fn"
| "spec_build E (Node op l r) =
     (case spec_build E l of
        Inl err \<Rightarrow> Inl err
      | Inr lhs \<Rightarrow>
          (case spec_build E r of
             Inl err \<Rightarrow> Inl err
           | Inr rhs \<Rightarrow> spec_combine E op lhs rhs))"

text \<open>
  For the proofs. \<open>ok\<close> forgets which error a build failed with. \<open>gpass\<close> is one
  pass of the resolver over the sequence \<open>cur, (op\<^sub>1, f\<^sub>1), (op\<^sub>2, f\<^sub>2), ...\<close>, and
  \<open>resolve_from c j n\<close> the passes of the levels \<open>j, ..., j + n - 1\<close> followed by
  the check that one function is left. \<open>pass_tree\<close> is the effect of the pass of one
  level on a tree: every subtree whose root has that level is replaced by its built
  function. \<open>attach\<close> adds an operator and an operand at the right end of a grouped
  tree.
\<close>

definition ok :: "'e + 'a \<Rightarrow> 'a option" where
  "ok r = (case r of Inl e \<Rightarrow> None | Inr x \<Rightarrow> Some x)"

fun gpass ::
  "(ArithmeticOperator \<Rightarrow> ('a \<Rightarrow> 'a \<Rightarrow> 'a option) option) \<Rightarrow> 'a \<Rightarrow> (ArithmeticOperator \<times> 'a) list
     \<Rightarrow> ('a \<times> (ArithmeticOperator \<times> 'a) list) option" where
  "gpass step cur [] = Some (cur, [])"
| "gpass step cur ((op, f) # rest) =
     (case step op of
        Some comb \<Rightarrow>
          (case comb cur f of
             None \<Rightarrow> None
           | Some g \<Rightarrow> gpass step g rest)
      | None \<Rightarrow>
          (case gpass step f rest of
             None \<Rightarrow> None
           | Some (h, rest') \<Rightarrow> Some (cur, (op, h) # rest')))"

definition level_step ::
  "(ArithmeticOperator \<Rightarrow> 'a \<Rightarrow> 'a \<Rightarrow> 'a option) \<Rightarrow> nat
     \<Rightarrow> ArithmeticOperator \<Rightarrow> ('a \<Rightarrow> 'a \<Rightarrow> 'a option) option" where
  "level_step c j op = (if spec_precedence op = j then Some (c op) else None)"

fun gbuild :: "(ArithmeticOperator \<Rightarrow> 'a \<Rightarrow> 'a \<Rightarrow> 'a option) \<Rightarrow> 'a expr_tree \<Rightarrow> 'a option" where
  "gbuild c (Leaf a) = Some a"
| "gbuild c (Node op l r) =
     (case gbuild c l of
        None \<Rightarrow> None
      | Some x \<Rightarrow> (case gbuild c r of None \<Rightarrow> None | Some y \<Rightarrow> c op x y))"

fun tree_head :: "'a expr_tree \<Rightarrow> 'a" where
  "tree_head (Leaf a) = a"
| "tree_head (Node op l r) = tree_head l"

fun tree_tail :: "'a expr_tree \<Rightarrow> (ArithmeticOperator \<times> 'a) list" where
  "tree_tail (Leaf a) = []"
| "tree_tail (Node op l r) = tree_tail l @ (op, tree_head r) # tree_tail r"

fun min_level :: "nat \<Rightarrow> 'a expr_tree \<Rightarrow> bool" where
  "min_level j (Leaf a) = True"
| "min_level j (Node op l r) = (j \<le> spec_precedence op \<and> min_level j l \<and> min_level j r)"

fun pass_tree ::
  "(ArithmeticOperator \<Rightarrow> 'a \<Rightarrow> 'a \<Rightarrow> 'a option) \<Rightarrow> nat \<Rightarrow> 'a expr_tree \<Rightarrow> 'a expr_tree option" where
  "pass_tree c j (Leaf a) = Some (Leaf a)"
| "pass_tree c j (Node op l r) =
     (if spec_precedence op = j then map_option Leaf (gbuild c (Node op l r))
      else
        (case pass_tree c j l of
           None \<Rightarrow> None
         | Some l' \<Rightarrow>
             (case pass_tree c j r of
                None \<Rightarrow> None
              | Some r' \<Rightarrow> Some (Node op l' r'))))"

definition chain :: "'a expr_tree \<Rightarrow> 'a \<times> (ArithmeticOperator \<times> 'a) list" where
  "chain t = (tree_head t, tree_tail t)"

definition ok_step ::
  "(ArithmeticOperator \<Rightarrow> ('a \<Rightarrow> 'a \<Rightarrow> 'e + 'a) option)
     \<Rightarrow> ArithmeticOperator \<Rightarrow> ('a \<Rightarrow> 'a \<Rightarrow> 'a option) option" where
  "ok_step step op = map_option (\<lambda>comb lhs rhs. ok (comb lhs rhs)) (step op)"

fun resolve_from ::
  "(ArithmeticOperator \<Rightarrow> 'a \<Rightarrow> 'a \<Rightarrow> 'a option) \<Rightarrow> nat \<Rightarrow> nat
     \<Rightarrow> 'a \<times> (ArithmeticOperator \<times> 'a) list \<Rightarrow> 'a option" where
  "resolve_from c j 0 (a, xs) = (if xs = [] then Some a else None)"
| "resolve_from c j (Suc n) (a, xs) =
     (case gpass (level_step c j) a xs of
        None \<Rightarrow> None
      | Some p \<Rightarrow> resolve_from c (Suc j) n p)"

definition chain_lists :: "'a \<times> (ArithmeticOperator \<times> 'a) list \<Rightarrow> 'a list \<times> ArithmeticOperator list" where
  "chain_lists p = (fst p # map snd (snd p), map fst (snd p))"

definition combO :: "'f go_env \<Rightarrow> ArithmeticOperator \<Rightarrow> ('f, 'c) Function \<Rightarrow> ('f, 'c) Function \<Rightarrow> ('f, 'c) Function option" where
  "combO E op lhs rhs = ok (spec_combine E op lhs rhs)"

fun attach :: "'a expr_tree \<Rightarrow> ArithmeticOperator \<Rightarrow> 'a \<Rightarrow> 'a expr_tree" where
  "attach (Leaf a) op b = Node op (Leaf a) (Leaf b)"
| "attach (Node op' l r) op b =
     (if spec_precedence op < spec_precedence op' then Node op' l (attach r op b)
      else Node op (Node op' l r) (Leaf b))"

section \<open>The mapping executor, as the specification describes it\<close>

text \<open>
  Modelled from the spec: the executor and the assignments (package
  \<^verbatim>\<open>internal/bloblang/mapping\<close>: \<^verbatim>\<open>Executor\<close>, \<^verbatim>\<open>MapPart\<close>, \<^verbatim>\<open>Statement\<close>, the
  JSON, metadata and variable assignments) are not among the sources, only their test
  \<^verbatim>\<open>executor_test.go\<close> is. The definitions of this section follow sections 3, 4.4 and
  4.5 of the specification. A message part has its bytes and its metadata; the parser
  and the serialiser of JSON and the number formatting of \<^verbatim>\<open>IToString\<close> are
  parameters (\<open>msg_env\<close>). The deep copy of a payload is the identity on values.
\<close>

record part =
  part_content :: string
  part_meta :: "(string \<times> string) list"

record 'f msg_env =
  parse_json :: "string \<Rightarrow> error + 'f boxed"
  serialize_json :: "'f boxed \<Rightarrow> string"
  sprintf_v :: "'f boxed \<Rightarrow> string"
  gabs_string :: "'f boxed \<Rightarrow> string"

text \<open>
  \<^verbatim>\<open>IToString\<close> is in \<^verbatim>\<open>type_helpers.go\<close>; \<^verbatim>\<open>fmt.Sprintf("%v", t)\<close> and the last resort
  \<^verbatim>\<open>gabs.Wrap(i).String()\<close> are parameters.
\<close>

fun IToString :: "'f msg_env \<Rightarrow> 'f boxed \<Rightarrow> string" where
  "IToString M (BString t) = t"
| "IToString M (BBytes t) = t"
| "IToString M (BInt64 t) = sprintf_v M (BInt64 t)"
| "IToString M (BUint64 t) = sprintf_v M (BUint64 t)"
| "IToString M (BFloat64 t) = sprintf_v M (BFloat64 t)"
| "IToString M (BJsonNumber t) = t"
| "IToString M (BBool t) = (if t then ''true'' else ''false'')"
| "IToString M BNil = ''null''"
| "IToString M v = gabs_string M v"

text \<open>
  Modelled from the spec: the evaluation context of a query (the batch, the index,
  the variables and the value of \<^verbatim>\<open>this\<close>; the named maps are left out, since a
  function of the embedding cannot hold a context that holds functions), the three
  assignment targets (no path or key is the root), a statement, the errors of an
  assignment and of a mapping, and the pending result: the structured payload
  (\<open>None\<close> while the part has no structured view), the metadata, the variables and
  the mark that the root was deleted.
\<close>

record 'f EvalContext =
  ctx_batch :: "part list"
  ctx_index :: nat
  ctx_vars :: "string \<Rightarrow> 'f boxed option"
  ctx_value :: "'f boxed option"

datatype Assignment =
    TargetJSON "string list option"
  | TargetMeta "string option"
  | TargetVar string

record 'f Statement =
  stmt_line :: nat
  stmt_target :: Assignment
  stmt_query :: "('f, 'f EvalContext) Function"

datatype AssignError = MetaUnavailable | MetaRootType ValueType | PartMissing

datatype MapError = MapQuery nat error | MapAssign nat AssignError

record 'f pending =
  pend_value :: "'f boxed option"
  pend_meta :: "(string \<times> string) list"
  pend_vars :: "string \<Rightarrow> 'f boxed option"
  pend_deleted :: bool

text \<open>
  Modelled from the spec: writing at a path of the structured payload. Where the
  value on the way is not an object, an object is created; \<open>Delete\<close> removes the leaf
  key.
\<close>

fun alist_set :: "string \<Rightarrow> 'v \<Rightarrow> (string \<times> 'v) list \<Rightarrow> (string \<times> 'v) list" where
  "alist_set k v [] = [(k, v)]"
| "alist_set k v ((k', v') # kvs) =
     (if k = k' then (k, v) # kvs else (k', v') # alist_set k v kvs)"

definition alist_remove :: "string \<Rightarrow> (string \<times> 'v) list \<Rightarrow> (string \<times> 'v) list" where
  "alist_remove k kvs = filter (\<lambda>kv. fst kv \<noteq> k) kvs"

definition object_fields :: "'f boxed \<Rightarrow> (string \<times> 'f boxed) list" where
  "object_fields v = (case v of BObject kvs \<Rightarrow> kvs | _ \<Rightarrow> [])"

definition object_child :: "'f boxed \<Rightarrow> string \<Rightarrow> 'f boxed" where
  "object_child v k = (case map_of (object_fields v) k of Some c \<Rightarrow> c | None \<Rightarrow> BObject [])"

fun set_path :: "string list \<Rightarrow> 'f boxed \<Rightarrow> 'f boxed \<Rightarrow> 'f boxed" where
  "set_path [] v cur = v"
| "set_path (k # ks) v cur =
     BObject (alist_set k (set_path ks v (object_child cur k)) (object_fields cur))"

fun delete_path :: "string list \<Rightarrow> 'f boxed \<Rightarrow> 'f boxed" where
  "delete_path [] cur = cur"
| "delete_path [k] cur = BObject (alist_remove k (object_fields cur))"
| "delete_path (k # ks) cur =
     BObject (alist_set k (delete_path ks (object_child cur k)) (object_fields cur))"

definition pending_object :: "'f pending \<Rightarrow> 'f boxed" where
  "pending_object p = (case pend_value p of Some v \<Rightarrow> v | None \<Rightarrow> BObject [])"

text \<open>
  Modelled from the spec: section 4.4. At the JSON root \<open>Delete\<close> marks the part as
  deleted, \<open>Nothing\<close> changes nothing, any other value replaces the payload (and the
  part is no longer deleted). The root of the metadata takes an object, \<open>Delete\<close>
  or \<open>Nothing\<close>; a metadata key takes the value as a string.
\<close>

fun apply_assignment ::
  "'f msg_env \<Rightarrow> Assignment \<Rightarrow> 'f boxed \<Rightarrow> 'f pending \<Rightarrow> AssignError + 'f pending" where
  "apply_assignment M (TargetJSON None) v p =
     (case v of
        BDelete \<Rightarrow> Inr (p\<lparr>pend_deleted := True\<rparr>)
      | BNothing \<Rightarrow> Inr p
      | _ \<Rightarrow> Inr (p\<lparr>pend_value := Some v, pend_deleted := False\<rparr>))"
| "apply_assignment M (TargetJSON (Some segments)) v p =
     (case v of
        BDelete \<Rightarrow> Inr (p\<lparr>pend_value := Some (delete_path segments (pending_object p))\<rparr>)
      | BNothing \<Rightarrow> Inr p
      | _ \<Rightarrow> Inr (p\<lparr>pend_value := Some (set_path segments v (pending_object p))\<rparr>))"
| "apply_assignment M (TargetMeta None) v p =
     (case v of
        BDelete \<Rightarrow> Inr (p\<lparr>pend_meta := []\<rparr>)
      | BNothing \<Rightarrow> Inr p
      | BObject kvs \<Rightarrow> Inr (p\<lparr>pend_meta := map (\<lambda>kv. (fst kv, IToString M (snd kv))) kvs\<rparr>)
      | _ \<Rightarrow> Inl (MetaRootType (ITypeOf v)))"
| "apply_assignment M (TargetMeta (Some k)) v p =
     (case v of
        BDelete \<Rightarrow> Inr (p\<lparr>pend_meta := alist_remove k (pend_meta p)\<rparr>)
      | BNothing \<Rightarrow> Inr p
      | _ \<Rightarrow> Inr (p\<lparr>pend_meta := alist_set k (IToString M v) (pend_meta p)\<rparr>))"
| "apply_assignment M (TargetVar name) v p =
     (case v of
        BDelete \<Rightarrow> Inr (p\<lparr>pend_vars := (pend_vars p)(name := None)\<rparr>)
      | BNothing \<Rightarrow> Inr p
      | _ \<Rightarrow> Inr (p\<lparr>pend_vars := (pend_vars p)(name \<mapsto> v)\<rparr>))"

text \<open>
  Modelled from the spec: section 4.5. The statements run in order; a query that fails
  or an assignment that fails ends the mapping with the statement's line. The
  variables set by a statement are in the context of the next.
\<close>

definition statement_context ::
  "part list \<Rightarrow> nat \<Rightarrow> 'f boxed option \<Rightarrow> 'f pending \<Rightarrow> 'f EvalContext" where
  "statement_context batch index this p =
     \<lparr>ctx_batch = batch, ctx_index = index, ctx_vars = pend_vars p, ctx_value = this\<rparr>"

fun exec_statements ::
  "'f msg_env \<Rightarrow> part list \<Rightarrow> nat \<Rightarrow> 'f boxed option \<Rightarrow> 'f Statement list \<Rightarrow> 'f pending
     \<Rightarrow> MapError + 'f pending" where
  "exec_statements M batch index this [] p = Inr p"
| "exec_statements M batch index this (s # rest) p =
     (case Exec (stmt_query s) (statement_context batch index this p) of
        Inl cause \<Rightarrow> Inl (MapQuery (stmt_line s) cause)
      | Inr v \<Rightarrow>
          (case apply_assignment M (stmt_target s) v p of
             Inl cause \<Rightarrow> Inl (MapAssign (stmt_line s) cause)
           | Inr p' \<Rightarrow> exec_statements M batch index this rest p'))"

text \<open>
  Modelled from the spec: \<^verbatim>\<open>map_part(index, batch)\<close>. The pending result starts as the
  structured payload and the metadata of the part, with no variables; \<^verbatim>\<open>this\<close> is the
  structured payload. After the statements, a deleted result is \<open>None\<close>; otherwise
  the part has the bytes of a string payload, or the serialised payload, and the
  pending metadata. An index outside the batch has no part.
\<close>

definition part_structured :: "'f msg_env \<Rightarrow> part \<Rightarrow> 'f boxed option" where
  "part_structured M pt = (case parse_json M (part_content pt) of Inl err \<Rightarrow> None | Inr v \<Rightarrow> Some v)"

definition initial_pending :: "'f msg_env \<Rightarrow> part \<Rightarrow> 'f pending" where
  "initial_pending M pt =
     \<lparr>pend_value = part_structured M pt, pend_meta = part_meta pt,
      pend_vars = Map.empty, pend_deleted = False\<rparr>"

definition materialize :: "'f msg_env \<Rightarrow> part \<Rightarrow> 'f pending \<Rightarrow> part option" where
  "materialize M pt p =
     (if pend_deleted p then None
      else Some \<lparr>part_content =
                    (case pend_value p of
                       None \<Rightarrow> part_content pt
                     | Some (BString t) \<Rightarrow> t
                     | Some (BBytes t) \<Rightarrow> t
                     | Some v \<Rightarrow> serialize_json M v),
                 part_meta = pend_meta p\<rparr>)"

definition MapPart ::
  "'f msg_env \<Rightarrow> 'f Statement list \<Rightarrow> nat \<Rightarrow> part list \<Rightarrow> MapError + part option" where
  "MapPart M statements index batch =
     (if index < length batch then
        (case exec_statements M batch index (part_structured M (batch ! index)) statements
                (initial_pending M (batch ! index)) of
           Inl err \<Rightarrow> Inl err
         | Inr p \<Rightarrow> Inr (materialize M (batch ! index) p))
      else Inl (MapAssign 0 PartMissing))"

section \<open>An environment to run examples in\<close>

text \<open>
  The theorems hold for every environment. To evaluate the functions on concrete
  inputs, \<open>exact_env\<close> is one environment: floats are real numbers with exact
  arithmetic, \<^verbatim>\<open>float64(i)\<close> is the value of the integer, every float has a value,
  \<^verbatim>\<open>int64(f)\<close> of a float too large for an \<^verbatim>\<open>int64\<close> is the smallest \<^verbatim>\<open>int64\<close> (as on
  amd64), a \<^verbatim>\<open>json.Number\<close> is read when it is an unsigned decimal integer, and
  \<^verbatim>\<open>cmp.Equal\<close> is equality of the values.
\<close>

fun digits_value :: "string \<Rightarrow> nat \<Rightarrow> nat option" where
  "digits_value [] acc = Some acc"
| "digits_value (c # cs) acc =
     (let n = (of_char c :: nat) in
      if 48 \<le> n \<and> n \<le> 57 then digits_value cs (10 * acc + (n - 48)) else None)"

definition exact_env :: "real go_env" where
  "exact_env = \<lparr>
     f64_add = (+), f64_sub = (-), f64_mul = (*), f64_div = (/),
     f64_eq = (=), f64_lt = (<), f64_le = (\<le>), f64_zero = 0,
     f64_of_int64 = (\<lambda>w. of_int (sint w)),
     f64_of_uint64 = (\<lambda>w. of_int (uint w)),
     f64_value = Some,
     int64_unrepresentable = (\<lambda>x. - (2 ^ 63)),
     Number_Int64 = (\<lambda>s. case digits_value s 0 of
                          Some n \<Rightarrow> if s \<noteq> [] \<and> n < 2 ^ 63 then Inr (of_nat n) else Inl (NumError s)
                        | None \<Rightarrow> Inl (NumError s)),
     Number_Float64 = (\<lambda>s. case digits_value s 0 of
                          Some n \<Rightarrow> if s \<noteq> [] then Inr (of_nat n) else Inl (NumError s)
                        | None \<Rightarrow> Inl (NumError s)),
     cmp_Equal = (=) \<rparr>"

section \<open>Properties\<close>

subsection \<open>String concatenation\<close>

text \<open>
  C3, as stated: with a string or bytes on the left, \<^verbatim>\<open>+\<close> appends the right operand
  coerced to a string, a number being stringified. The code extracts the right
  operand with the strict \<^verbatim>\<open>IGetString\<close>, so \<^verbatim>\<open>"foo" + 5\<close> is a type error.
\<close>

theorem addOp_string_number_counterexample:
  "sumOp exact_env ArithmeticAdd = Some (addOp exact_env) \<and>
   addOp exact_env (BString ''foo'') (BInt64 5) = Inl (TypeError [ValueString] ValueNumber)"
  by (simp add: NewTypeError_def)

text \<open>
  C3, amended: with a string or bytes on the left, \<^verbatim>\<open>+\<close> returns the concatenation
  (a string) when the right operand is a string or bytes, and for every other right
  operand fails with a type error that expects a string and reports the right
  operand's type.
\<close>

theorem addOp_string_left:
  "left = BString l \<or> left = BBytes l \<Longrightarrow>
   sumOp E ArithmeticAdd = Some (addOp E) \<and>
   addOp E left right =
     (case right of
        BString r \<Rightarrow> Inr (BString (l @ r))
      | BBytes r \<Rightarrow> Inr (BString (l @ r))
      | _ \<Rightarrow> Inl (TypeError [ValueString] (ITypeOf right)))"
  by (cases right) (auto simp: NewTypeError_def)

theorem addOp_string_left_witness:
  "addOp exact_env (BBytes ''ab'') (BString ''cd'') = Inr (BString ''abcd'') \<and>
   addOp exact_env (BString ''ab'') (BFloat64 1) = Inl (TypeError [ValueString] ValueNumber)"
  using addOp_string_left [of "BBytes ''ab''" "''ab''" exact_env "BString ''cd''"]
        addOp_string_left [of "BString ''ab''" "''ab''" exact_env "BFloat64 1"]
  by simp

subsection \<open>Coalesce\<close>

text \<open>
  C5: \<^verbatim>\<open>lhs | rhs\<close> returns the result of \<open>lhs\<close> exactly when \<open>lhs\<close> evaluated without
  error to a value that is not null, Delete or Nothing, and the result of evaluating
  \<open>rhs\<close> in every other case; a left-hand Delete takes the right side. The first pass
  of the resolver builds this node for the operator \<^verbatim>\<open>|\<close>.
\<close>

theorem coalesce_exec:
  "Exec (coalesce lhs rhs) ctx =
     (case Exec lhs ctx of
        Inl err \<Rightarrow> Exec rhs ctx
      | Inr v \<Rightarrow> if v = BNil \<or> v = BDelete \<or> v = BNothing then Exec rhs ctx else Inr v) \<and>
   Exec (coalesce (Literal BDelete) rhs) ctx = Exec rhs ctx \<and>
   prod_step E ArithmeticPipe = Some (\<lambda>l r :: ('f, 'c) Function. Inr (coalesce l r))"
proof -
  have "IIsNull v = (v = BNil \<or> v = BDelete \<or> v = BNothing)" for v :: "'a boxed"
    by (cases v) simp_all
  then show ?thesis
    by (simp add: coalesce_def prod_step_def split: sum.split)
qed

subsection \<open>Division and remainder\<close>

text \<open>
  C6: \<^verbatim>\<open>/\<close> coerces both operands to float and divides them as floats, failing with
  \<open>ErrDivideByZero\<close> exactly when the coerced right operand equals zero; \<^verbatim>\<open>%\<close>
  coerces both to integer and fails with \<open>ErrDivideByZero\<close> exactly when the coerced
  right operand is zero. With a nonzero divisor neither fails.
\<close>

theorem div_mod_by_zero:
  "prodOp E ArithmeticDiv = Some (divOp E) \<and> prodOp E ArithmeticMod = Some (modOp E) \<and>
   (IGetNumber E left = Inr l \<longrightarrow> IGetNumber E right = Inr r \<longrightarrow>
      divOp E left right =
        (if f64_eq E r (f64_zero E) then Inl ErrDivideByZero
         else Inr (BFloat64 (f64_div E l r)))) \<and>
   (IGetInt E left = Inr i \<longrightarrow> IGetInt E right = Inr j \<longrightarrow>
      modOp E left right =
        (if j = 0 then Inl ErrDivideByZero else Inr (BInt64 (int64_rem i j))))"
  by (simp add: divOp_def modOp_def)

theorem div_mod_by_zero_witness:
  "divOp exact_env (BInt64 7) (BFloat64 0) = Inl ErrDivideByZero \<and>
   divOp exact_env (BInt64 7) (BInt64 2) = Inr (BFloat64 (7 / 2)) \<and>
   modOp exact_env (BInt64 7) (BFloat64 0) = Inl ErrDivideByZero \<and>
   modOp exact_env (BInt64 (- 7)) (BInt64 2) = Inr (BInt64 (- 1))"
  using div_mod_by_zero [where E = exact_env and left = "BInt64 7" and right = "BFloat64 0"
          and l = 7 and r = 0 and i = 7 and j = 0]
        div_mod_by_zero [where E = exact_env and left = "BInt64 7" and right = "BInt64 2"
          and l = 7 and r = 2 and i = 7 and j = 2]
        div_mod_by_zero [where E = exact_env and left = "BInt64 (- 7)" and right = "BInt64 2"
          and l = "- 7" and r = 2 and i = "- 7" and j = 2]
  by (simp add: exact_env_def int64_rem_def signed_modulo_int_def int64_of_f64_def
        trunc_toward_zero_def int64_range_def)

subsection \<open>The strict extractors on numbers\<close>

text \<open>
  C9: \<^verbatim>\<open>IGetBool\<close> returns a bool as it is and, without error, whether a number
  (\<^verbatim>\<open>int\<close>, \<^verbatim>\<open>int64\<close>, \<^verbatim>\<open>uint64\<close>, \<^verbatim>\<open>float64\<close>) is nonzero; it returns a type error
  for strings, bytes, arrays, objects and null. So \<^verbatim>\<open>&&\<close> and \<^verbatim>\<open>||\<close> accept every
  operand \<^verbatim>\<open>IGetBool\<close> accepts, numbers included, a nonzero number being true.
\<close>

theorem IGetBool_numeric:
  "IGetBool E (BBool b) = Inr b \<and>
   IGetBool E (BInt n) = Inr (n \<noteq> 0) \<and>
   IGetBool E (BInt64 n) = Inr (n \<noteq> 0) \<and>
   IGetBool E (BUint64 n) = Inr (n \<noteq> 0) \<and>
   IGetBool E (BFloat64 x) = Inr (\<not> f64_eq E x (f64_zero E)) \<and>
   IGetBool E (BString s) = Inl (TypeError [ValueBool] ValueString) \<and>
   IGetBool E (BBytes s) = Inl (TypeError [ValueBool] ValueBytes) \<and>
   IGetBool E (BArray vs) = Inl (TypeError [ValueBool] ValueArray) \<and>
   IGetBool E (BObject kvs) = Inl (TypeError [ValueBool] ValueObject) \<and>
   IGetBool E BNil = Inl (TypeError [ValueBool] ValueNull) \<and>
   (Exec lhs ctx = Inr u \<longrightarrow> Exec rhs ctx = Inr v \<longrightarrow>
    IGetBool E u = Inr p \<longrightarrow> IGetBool E v = Inr q \<longrightarrow>
      Exec (boolAnd E lhs rhs) ctx = Inr (BBool (p \<and> q)) \<and>
      Exec (boolOr E lhs rhs) ctx = Inr (BBool (p \<or> q)))"
  by (simp add: NewTypeError_def boolAnd_def boolOr_def)

theorem IGetBool_numeric_witness:
  "Exec (boolAnd exact_env (Literal (BInt64 2)) (Literal (BFloat64 (1 / 2)))) () = Inr (BBool True) \<and>
   Exec (boolOr exact_env (Literal (BUint64 0)) (Literal (BFloat64 0))) () = Inr (BBool False)"
  using IGetBool_numeric [where E = exact_env and lhs = "Literal (BInt64 2)" and ctx = "()"
          and u = "BInt64 2" and rhs = "Literal (BFloat64 (1 / 2))" and v = "BFloat64 (1 / 2)"
          and p = True and q = True]
        IGetBool_numeric [where E = exact_env and lhs = "Literal (BUint64 0)" and ctx = "()"
          and u = "BUint64 0" and rhs = "Literal (BFloat64 0)" and v = "BFloat64 0"
          and p = False and q = False]
  by (simp add: exact_env_def)

text \<open>
  C10, as stated: \<^verbatim>\<open>IGetInt\<close> truncates every \<^verbatim>\<open>float64\<close> towards zero. It returns
  \<^verbatim>\<open>int64(t)\<close>, and a float whose integer part is not an \<^verbatim>\<open>int64\<close> is converted to
  whatever the platform gives: for \<open>10\<^sup>1\<^sup>9\<close>, a \<^verbatim>\<open>float64\<close>, no \<^verbatim>\<open>int64\<close> is its
  truncation, the largest being \<open>2\<^sup>6\<^sup>3 - 1\<close>.
\<close>

theorem IGetInt_float_unrepresentable_counterexample:
  "trunc_toward_zero (10 ^ 19) = 10 ^ 19 \<and>
   IGetInt exact_env (BFloat64 (10 ^ 19)) = Inr (- (2 ^ 63)) \<and>
   sint (- (2 ^ 63) :: 64 word) = - (2 ^ 63) \<and>
   sint (- (2 ^ 63) :: 64 word) \<noteq> trunc_toward_zero (10 ^ 19)"
proof -
  have t: "trunc_toward_zero 10000000000000000000 = 10000000000000000000"
    by (simp add: trunc_toward_zero_def)
  have s: "sint (- (2 ^ 63) :: 64 word) = - (2 ^ 63)"
    by simp
  have "IGetInt exact_env (BFloat64 (10 ^ 19)) = Inr (- (2 ^ 63))"
    by (simp add: int64_of_f64_def t int64_range_def exact_env_def)
  with t s show ?thesis by simp
qed

lemma sint_int64_range:
  "int64_range k \<Longrightarrow> sint (word_of_int k :: 64 word) = k"
  by (simp add: int64_range_def sint_sbintrunc' signed_take_bit_int_eq_self)

lemma int64_rem_of_int:
  "int64_range a \<Longrightarrow> int64_range b \<Longrightarrow>
   int64_rem (word_of_int a) (word_of_int b) = word_of_int (a smod b)"
  by (simp add: int64_rem_def sint_int64_range)

lemma int64_zero_of_int:
  "int64_range b \<Longrightarrow> ((word_of_int b :: 64 word) = 0) = (b = 0)"
  using sint_int64_range [of b] by auto

text \<open>
  C10, amended: \<^verbatim>\<open>IGetInt\<close> accepts every \<^verbatim>\<open>float64\<close> without error; for every float
  that has a value whose integer part is an \<^verbatim>\<open>int64\<close> it returns that value truncated
  towards zero (for the other floats, what the platform's \<^verbatim>\<open>int64(t)\<close> gives). So
  \<^verbatim>\<open>%\<close> on two floats is never a type error, and on two such floats it is the
  truncated remainder of the truncated operands, and \<open>ErrDivideByZero\<close> exactly when
  the truncated right operand is zero.
\<close>

theorem IGetInt_float:
  "IGetInt E (BFloat64 x) = Inr (int64_of_f64 E x) \<and>
   modOp E (BFloat64 x) (BFloat64 y) =
     (if int64_of_f64 E y = 0 then Inl ErrDivideByZero
      else Inr (BInt64 (int64_rem (int64_of_f64 E x) (int64_of_f64 E y)))) \<and>
   (f64_value E x = Some r \<and> int64_range (trunc_toward_zero r) \<longrightarrow>
      IGetInt E (BFloat64 x) = Inr (word_of_int (trunc_toward_zero r)) \<and>
      sint (word_of_int (trunc_toward_zero r) :: 64 word) = trunc_toward_zero r \<and>
      (f64_value E y = Some s \<and> int64_range (trunc_toward_zero s) \<longrightarrow>
         modOp E (BFloat64 x) (BFloat64 y) =
           (if trunc_toward_zero s = 0 then Inl ErrDivideByZero
            else Inr (BInt64 (word_of_int (trunc_toward_zero r smod trunc_toward_zero s))))))"
  by (simp add: modOp_def int64_of_f64_def sint_int64_range int64_rem_of_int int64_zero_of_int)

theorem IGetInt_float_witness:
  "IGetInt exact_env (BFloat64 (- 27 / 10)) = Inr (- 2) \<and>
   modOp exact_env (BFloat64 (15 / 2)) (BFloat64 (- 5 / 2)) = Inr (BInt64 1) \<and>
   modOp exact_env (BFloat64 (- 15 / 2)) (BFloat64 (5 / 2)) = Inr (BInt64 (- 1)) \<and>
   modOp exact_env (BFloat64 (15 / 2)) (BFloat64 (1 / 2)) = Inl ErrDivideByZero"
proof -
  have v: "f64_value exact_env q = Some q" for q
    by (simp add: exact_env_def)
  have t: "trunc_toward_zero (- (27 / 10)) = - 2" "trunc_toward_zero (15 / 2) = 7"
    "trunc_toward_zero (- (5 / 2)) = - 2" "trunc_toward_zero (- (15 / 2)) = - 7"
    "trunc_toward_zero (5 / 2) = 2" "trunc_toward_zero (1 / 2) = 0"
    by (simp_all add: trunc_toward_zero_def)
  have r: "int64_range (- 2)" "int64_range 7" "int64_range 2" "int64_range (- 7)" "int64_range 0"
    by (simp_all add: int64_range_def)
  have a: "IGetInt exact_env (BFloat64 (- 27 / 10)) = Inr (- 2)"
    using IGetInt_float [where E = exact_env and x = "- 27 / 10" and r = "- 27 / 10" and y = 0 and s = 0,
        THEN conjunct2, THEN conjunct2]
    by (simp add: v t r)
  have b: "modOp exact_env (BFloat64 (15 / 2)) (BFloat64 (- 5 / 2)) = Inr (BInt64 1)"
    using IGetInt_float [where E = exact_env and x = "15 / 2" and r = "15 / 2" and y = "- 5 / 2" and s = "- 5 / 2",
        THEN conjunct2, THEN conjunct2]
    by (simp add: v t r signed_modulo_int_def)
  have c: "modOp exact_env (BFloat64 (- 15 / 2)) (BFloat64 (5 / 2)) = Inr (BInt64 (- 1))"
    using IGetInt_float [where E = exact_env and x = "- 15 / 2" and r = "- 15 / 2" and y = "5 / 2" and s = "5 / 2",
        THEN conjunct2, THEN conjunct2]
    by (simp add: v t r signed_modulo_int_def)
  have d: "modOp exact_env (BFloat64 (15 / 2)) (BFloat64 (1 / 2)) = Inl ErrDivideByZero"
    using IGetInt_float [where E = exact_env and x = "15 / 2" and r = "15 / 2" and y = "1 / 2" and s = "1 / 2",
        THEN conjunct2, THEN conjunct2]
    by (simp add: v t r)
  from a b c d show ?thesis by blast
qed

subsection \<open>Comparison with a right operand of the wrong type\<close>

text \<open>
  C4, as stated: whenever the left operand is a string, float or bool and the right
  operand fails to coerce, every operator but \<^verbatim>\<open>!=\<close> propagates the coercion error.
  With a bool on the left and an ordering operator the code never coerces the right
  operand: \<^verbatim>\<open>compareBoolFn\<close> is nil, and the error is the type error of the left
  operand.
\<close>

theorem compare_bool_ordering_counterexample:
  "compareOp exact_env ArithmeticGt = Some (compareFunc exact_env ArithmeticGt) \<and>
   restrictForComparison exact_env (BBool True) = BBool True \<and>
   IGetBool exact_env (BString ''x'') = Inl (TypeError [ValueBool] ValueString) \<and>
   compareFunc exact_env ArithmeticGt (BBool True) (BString ''x'') = Inl (TypeError [] ValueBool)"
  by (simp add: compareFunc_def restrictForComparison_def NewTypeError_def)

lemma compareOp_Some:
  "compareOp E op = Some cmp \<Longrightarrow>
     cmp = compareFunc E op \<and> compareStrFn op \<noteq> None \<and> compareNumFn E op \<noteq> None \<and>
     (compareBoolFn op = None) = (op \<noteq> ArithmeticEq \<and> op \<noteq> ArithmeticNeq)"
  by (cases op) auto

text \<open>
  C4, amended: where the left operand is a string or a float (after
  \<^verbatim>\<open>restrictForComparison\<close>) and the right operand fails to coerce, \<^verbatim>\<open>!=\<close> returns
  true and every other comparison operator propagates the coercion error. Where the
  left operand is a bool and the right operand fails to coerce, \<^verbatim>\<open>!=\<close> returns true,
  \<^verbatim>\<open>==\<close> propagates the coercion error, and the ordering operators fail with the type
  error of the left operand. \<^verbatim>\<open>"foo" != 5\<close> is true and \<^verbatim>\<open>"foo" > 5\<close> a type error.
\<close>

theorem compare_coercion_failure:
  "compareOp E op = Some cmp \<Longrightarrow>
   (restrictForComparison E left = BString s \<longrightarrow> IGetString right = Inl err \<longrightarrow>
      cmp left right = (if op = ArithmeticNeq then Inr (BBool True) else Inl err)) \<and>
   (restrictForComparison E left = BFloat64 x \<longrightarrow> IGetNumber E right = Inl err \<longrightarrow>
      cmp left right = (if op = ArithmeticNeq then Inr (BBool True) else Inl err)) \<and>
   (restrictForComparison E left = BBool b \<longrightarrow> IGetBool E right = Inl err \<longrightarrow>
      cmp left right =
        (if op = ArithmeticNeq then Inr (BBool True)
         else if op = ArithmeticEq then Inl err
         else Inl (TypeError [] ValueBool))) \<and>
   compareFunc E ArithmeticNeq (BString ''foo'') (BInt64 5) = Inr (BBool True) \<and>
   compareFunc E ArithmeticGt (BString ''foo'') (BInt64 5) =
     Inl (TypeError [ValueString] ValueNumber)"
proof -
  assume c: "compareOp E op = Some cmp"
  have bool_left: "ITypeOf left = ValueBool" if "restrictForComparison E left = BBool b"
    using that by (cases left) (auto simp: restrictForComparison_def split: sum.splits)
  from compareOp_Some [OF c] show ?thesis
    by (auto simp: compareFunc_def NewTypeError_def restrictForComparison_def bool_left)
qed

theorem compare_coercion_failure_witness:
  "compareFunc exact_env ArithmeticNeq (BBytes ''7'') (BInt64 7) = Inr (BBool True) \<and>
   compareFunc exact_env ArithmeticLte (BInt64 7) (BString ''7'') =
     Inl (TypeError [ValueNumber] ValueString) \<and>
   compareFunc exact_env ArithmeticEq (BBool True) BNil = Inl (TypeError [ValueBool] ValueNull) \<and>
   compareFunc exact_env ArithmeticLt (BBool True) BNil = Inl (TypeError [] ValueBool)"
  using compare_coercion_failure [where E = exact_env and op = ArithmeticNeq
          and cmp = "compareFunc exact_env ArithmeticNeq" and left = "BBytes ''7''"
          and right = "BInt64 7" and s = "''7''" and err = "TypeError [ValueString] ValueNumber"]
        compare_coercion_failure [where E = exact_env and op = ArithmeticLte
          and cmp = "compareFunc exact_env ArithmeticLte" and left = "BInt64 7"
          and right = "BString ''7''" and x = 7 and err = "TypeError [ValueNumber] ValueString"]
        compare_coercion_failure [where E = exact_env and op = ArithmeticEq
          and cmp = "compareFunc exact_env ArithmeticEq" and left = "BBool True"
          and right = BNil and b = True and err = "TypeError [ValueBool] ValueNull"]
        compare_coercion_failure [where E = exact_env and op = ArithmeticLt
          and cmp = "compareFunc exact_env ArithmeticLt" and left = "BBool True"
          and right = BNil and b = True and err = "TypeError [ValueBool] ValueNull"]
  by (simp add: restrictForComparison_def NewTypeError_def exact_env_def)

subsection \<open>Constant folding\<close>

lemma arithmeticFunc_literals:
  "arithmeticFunc (Literal a) (Literal b) opf =
     (case opf a b of Inl err \<Rightarrow> Inl err | Inr res \<Rightarrow> Inr (Literal res))"
  by (simp add: NewLiteralFunction_def split: sum.split)

lemma fold_two_literals:
  assumes "prodOp E op = Some opf \<or> sumOp E op = Some opf \<or> compareOp E op = Some opf"
  shows "NewArithmeticExpression E [Literal a, Literal b] [op] = arithmeticFunc (Literal a) (Literal b) opf"
  using assms
  by (cases op)
     (auto simp: NewArithmeticExpression_def prod_step_def sum_step_def compare_step_def
           split: sum.splits)

text \<open>
  C7: when both children are literals, \<^verbatim>\<open>arithmeticFunc\<close> applies the operator at
  build time and returns a literal of the result, which evaluates in every context to
  what the closure over the same children returns; when the operator fails on the
  literal operands the builder returns that error. \<^verbatim>\<open>NewArithmeticExpression\<close> on two
  literals and an operator of the product, sum or comparison pass returns just that.
\<close>

theorem constant_folding:
  "arithmeticFunc (Literal a) (Literal b) opf =
     (case opf a b of
        Inl err \<Rightarrow> Inl err
      | Inr res \<Rightarrow> Inr (Literal res :: ('f, 'c) Function)) \<and>
   Exec (arithmeticClosure (Literal a) (Literal b) opf) ctx = opf a b \<and>
   (opf a b = Inr res \<longrightarrow>
      Exec (arithmeticClosure (Literal a) (Literal b) opf) ctx = Exec (Literal res) ctx) \<and>
   (prodOp E op = Some opf \<or> sumOp E op = Some opf \<or> compareOp E op = Some opf \<longrightarrow>
      NewArithmeticExpression E [Literal a, Literal b] [op] =
        (case opf a b of
           Inl err \<Rightarrow> Inl err
         | Inr res \<Rightarrow> Inr (Literal res :: ('f, 'c) Function)))"
  for ctx :: 'c and a b :: "'f boxed"
  using fold_two_literals [of E op opf a b]
  by (auto simp: arithmeticClosure_def arithmeticFunc_literals simp del: arithmeticFunc.simps)

theorem constant_folding_witness:
  "NewArithmeticExpression exact_env [Literal (BInt64 6), Literal (BInt64 7)] [ArithmeticMul]
     = Inr (Literal (BInt64 42) :: (real, unit) Function) \<and>
   Exec (arithmeticClosure (Literal (BInt64 6)) (Literal (BInt64 7)) (mulOp exact_env)) ()
     = Inr (BInt64 42) \<and>
   NewArithmeticExpression exact_env [Literal (BInt64 6), Literal (BInt64 0)] [ArithmeticMod]
     = (Inl ErrDivideByZero :: error + (real, unit) Function)"
proof -
  have m: "mulOp exact_env (BInt64 6) (BInt64 7) = Inr (BInt64 42)"
    by (simp add: mulOp_def numberDegradationFunc_def)
  have z: "modOp exact_env (BInt64 6) (BInt64 0) = Inl ErrDivideByZero"
    by (simp add: modOp_def)
  show ?thesis
    using constant_folding [where E = exact_env and op = ArithmeticMul and opf = "mulOp exact_env"
            and a = "BInt64 6" and b = "BInt64 7" and res = "BInt64 42" and ctx = "()"]
          constant_folding [where E = exact_env and op = ArithmeticMod and opf = "modOp exact_env"
            and a = "BInt64 6" and b = "BInt64 0" and res = "BInt64 0" and ctx = "()"]
    by (simp add: m z)
qed


subsection \<open>Argument extraction\<close>

lemma typed_extraction_fun:
  "typed_extraction E (DeclInt p) = (\<lambda>v. map_sum id IntCell (IGetInt E v))"
  "typed_extraction E (DeclInt64 p) = (\<lambda>v. map_sum id Int64Cell (IGetInt E v))"
  "typed_extraction E (DeclFloat64 p) = (\<lambda>v. map_sum id Float64Cell (IGetNumber E v))"
  "typed_extraction E (DeclBool p) = (\<lambda>v. map_sum id BoolCell (IGetBool E v))"
  "typed_extraction E (DeclString p) = (\<lambda>v. map_sum id StringCell (IGetString v))"
  "typed_extraction E (DeclAny p) = (\<lambda>v. Inr (AnyCell v))"
  by (rule ext, simp)+

lemma declare_arg_eq:
  "declare_arg E a d =
     a\<lparr>argN := argN a + 1, argValidators := argValidators a @ [decl_validator E (argN a) d]\<rparr>"
  by (cases d)
     (simp_all add: IntVar_def Int64Var_def Float64Var_def BoolVar_def StringVar_def AnyVar_def
        register_def decl_validator_def Let_def typed_extraction_fun)

lemma foldl_declare_arg:
  "foldl (declare_arg E) a ds =
     a\<lparr>argN := argN a + length ds,
       argValidators := argValidators a @ map (\<lambda>(k, d). decl_validator E k d) (enumerate (argN a) ds)\<rparr>"
proof (induction ds arbitrary: a)
  case Nil
  show ?case by simp
next
  case (Cons d ds)
  have "foldl (declare_arg E) a (d # ds) = foldl (declare_arg E) (declare_arg E a d) ds"
    by simp
  also have "\<dots> = (declare_arg E a d)\<lparr>argN := argN (declare_arg E a d) + length ds,
       argValidators := argValidators (declare_arg E a d) @
         map (\<lambda>(k, d). decl_validator E k d) (enumerate (argN (declare_arg E a d)) ds)\<rparr>"
    by (rule Cons.IH)
  also have "\<dots> = a\<lparr>argN := argN a + length (d # ds),
       argValidators := argValidators a @
         map (\<lambda>(k, d). decl_validator E k d) (enumerate (argN a) (d # ds))\<rparr>"
    by (simp add: declare_arg_eq)
  finally show ?case .
qed

lemma build_spec_eq:
  "argN (build_spec E ds) = length ds \<and>
   argValidators (build_spec E ds) = map (\<lambda>(k, d). decl_validator E k d) (enumerate 0 ds)"
  by (simp add: build_spec_def foldl_declare_arg NewArgSpec_def)

lemma run_decls_Nil: "run_decls E k [] args st = (None, st)"
  by (simp add: run_decls_def)

lemma run_decls_Cons:
  "k < length args \<Longrightarrow>
   run_decls E k (d # ds) args st =
     (case typed_extraction E d (args ! k) of
        Inl err \<Rightarrow> (Some (BadArgument k err), st)
      | Inr c \<Rightarrow> run_decls E (Suc k) ds args (st(decl_ptr d \<mapsto> c)))"
  by (simp add: run_decls_def decl_validator_def arg_validator_def split: sum.split)

lemma run_decls_untouched:
  "k + length ds \<le> length args \<Longrightarrow> p \<notin> decl_ptr ` set ds \<Longrightarrow>
   snd (run_decls E k ds args st) p = st p"
proof (induction ds arbitrary: k st)
  case Nil
  show ?case by (simp add: run_decls_Nil)
next
  case (Cons d ds)
  then show ?case
    by (simp add: run_decls_Cons split: sum.split)
qed

lemma run_decls_first_failure:
  "k + length ds \<le> length args \<Longrightarrow> i < length ds \<Longrightarrow>
   \<forall>j<i. \<exists>c. typed_extraction E (ds ! j) (args ! (k + j)) = Inr c \<Longrightarrow>
   typed_extraction E (ds ! i) (args ! (k + i)) = Inl err \<Longrightarrow>
   fst (run_decls E k ds args st) = Some (BadArgument (k + i) err)"
proof (induction ds arbitrary: k i st)
  case Nil
  then show ?case by simp
next
  case (Cons d ds)
  show ?case
  proof (cases i)
    case 0
    with Cons.prems show ?thesis by (simp add: run_decls_Cons)
  next
    case (Suc i')
    from Cons.prems(3) Suc obtain c where c: "typed_extraction E d (args ! k) = Inr c"
      by fastforce
    have "\<forall>j<i'. \<exists>c. typed_extraction E (ds ! j) (args ! (Suc k + j)) = Inr c"
      using Cons.prems(3) Suc by fastforce
    moreover have "typed_extraction E (ds ! i') (args ! (Suc k + i')) = Inl err"
      using Cons.prems(4) Suc by simp
    ultimately have "fst (run_decls E (Suc k) ds args (st(decl_ptr d \<mapsto> c))) =
        Some (BadArgument (Suc k + i') err)"
      using Cons.IH [of "Suc k" i'] Cons.prems(1,2) Suc by simp
    with c Cons.prems(1) Suc show ?thesis
      by (simp add: run_decls_Cons)
  qed
qed

lemma run_decls_success:
  "k + length ds \<le> length args \<Longrightarrow>
   \<forall>j<length ds. \<exists>c. typed_extraction E (ds ! j) (args ! (k + j)) = Inr c \<Longrightarrow>
   fst (run_decls E k ds args st) = None \<and>
   (distinct (map decl_ptr ds) \<longrightarrow>
      (\<forall>i<length ds. \<forall>c. typed_extraction E (ds ! i) (args ! (k + i)) = Inr c \<longrightarrow>
         snd (run_decls E k ds args st) (decl_ptr (ds ! i)) = Some c))"
proof (induction ds arbitrary: k st)
  case Nil
  show ?case by (simp add: run_decls_Nil)
next
  case (Cons d ds)
  from Cons.prems(2) obtain c0 where c0: "typed_extraction E d (args ! k) = Inr c0"
    by fastforce
  have rest: "\<forall>j<length ds. \<exists>c. typed_extraction E (ds ! j) (args ! (Suc k + j)) = Inr c"
    using Cons.prems(2) by fastforce
  have k: "k < length args" "Suc k + length ds \<le> length args"
    using Cons.prems(1) by simp_all
  note IH = Cons.IH [OF k(2) rest, of "st(decl_ptr d \<mapsto> c0)"]
  have step: "run_decls E k (d # ds) args st = run_decls E (Suc k) ds args (st(decl_ptr d \<mapsto> c0))"
    using k(1) c0 by (simp add: run_decls_Cons)
  have fstIH: "fst (run_decls E (Suc k) ds args (st(decl_ptr d \<mapsto> c0))) = None"
    using IH by blast
  have sndIH: "snd (run_decls E (Suc k) ds args (st(decl_ptr d \<mapsto> c0))) (decl_ptr (ds ! i')) = Some c"
    if "distinct (map decl_ptr ds)" "i' < length ds"
       "typed_extraction E (ds ! i') (args ! (Suc k + i')) = Inr c" for i' c
    using IH that by blast
  show ?case
  proof (intro conjI impI allI)
    show "fst (run_decls E k (d # ds) args st) = None"
      unfolding step by (rule fstIH)
  next
    fix i c
    assume dist: "distinct (map decl_ptr (d # ds))" and i: "i < length (d # ds)"
      and c: "typed_extraction E ((d # ds) ! i) (args ! (k + i)) = Inr c"
    show "snd (run_decls E k (d # ds) args st) (decl_ptr ((d # ds) ! i)) = Some c"
    proof (cases i)
      case 0
      have "decl_ptr d \<notin> decl_ptr ` set ds" using dist by simp
      from run_decls_untouched [OF k(2) this, of E "st(decl_ptr d \<mapsto> c0)"]
      have "snd (run_decls E (Suc k) ds args (st(decl_ptr d \<mapsto> c0))) (decl_ptr d) = Some c0"
        by simp
      moreover have "c = c0" using 0 c c0 by simp
      ultimately show ?thesis unfolding step using 0 by simp
    next
      case (Suc i')
      have "snd (run_decls E (Suc k) ds args (st(decl_ptr d \<mapsto> c0))) (decl_ptr (ds ! i')) = Some c"
        using dist i c Suc by (intro sndIH) simp_all
      then show ?thesis unfolding step using Suc by simp
    qed
  qed
qed

text \<open>
  C8: for a specification of \<open>N\<close> registered arguments (built from \<^verbatim>\<open>NewArgSpec()\<close>
  by the registrations \<open>ds\<close>, \<open>N = length ds\<close>) and every argument slice:
  \<^verbatim>\<open>Extract\<close> fails with the expected count \<open>N\<close> and the received count when the
  slice's length is not \<open>N\<close>; otherwise, when the typed extraction fails at position
  \<open>i\<close> and at no earlier position, it fails with an error that names the index \<open>i\<close>
  (counted from 0) and wraps the extraction's error; otherwise it succeeds, and every
  registered pointer holds the extracted value of its argument (the pointers being
  distinct).
\<close>

theorem Extract_build_spec:
  "a = build_spec E ds \<Longrightarrow>
   (length args \<noteq> length ds \<longrightarrow>
      Extract a args st = (Some (ArgCountError (length ds) (length args)), st)) \<and>
   (length args = length ds \<longrightarrow>
      (\<forall>i<length ds.
         (\<forall>j<i. \<exists>c. typed_extraction E (ds ! j) (args ! j) = Inr c) \<longrightarrow>
         (\<forall>err. typed_extraction E (ds ! i) (args ! i) = Inl err \<longrightarrow>
            fst (Extract a args st) = Some (BadArgument i err))) \<and>
      ((\<forall>j<length ds. \<exists>c. typed_extraction E (ds ! j) (args ! j) = Inr c) \<longrightarrow>
         fst (Extract a args st) = None \<and>
         (distinct (map decl_ptr ds) \<longrightarrow>
            (\<forall>i<length ds. \<forall>c. typed_extraction E (ds ! i) (args ! i) = Inr c \<longrightarrow>
               snd (Extract a args st) (decl_ptr (ds ! i)) = Some c))))"
proof -
  assume a: "a = build_spec E ds"
  have ex: "length args = length ds \<Longrightarrow> Extract a args st = run_decls E 0 ds args st"
    by (simp add: a Extract_def build_spec_eq run_decls_def)
  show ?thesis
  proof (intro conjI impI allI)
    assume "length args \<noteq> length ds"
    then show "Extract a args st = (Some (ArgCountError (length ds) (length args)), st)"
      by (simp add: a Extract_def build_spec_eq)
  next
    fix i err
    assume "length args = length ds" "i < length ds"
      "\<forall>j<i. \<exists>c. typed_extraction E (ds ! j) (args ! j) = Inr c"
      "typed_extraction E (ds ! i) (args ! i) = Inl err"
    then show "fst (Extract a args st) = Some (BadArgument i err)"
      using run_decls_first_failure [of 0 ds args i E err st] ex by simp
  next
    assume "length args = length ds"
      "\<forall>j<length ds. \<exists>c. typed_extraction E (ds ! j) (args ! j) = Inr c"
    then show "fst (Extract a args st) = None"
      using run_decls_success [of 0 ds args E st] ex by simp
  next
    fix i c
    assume "length args = length ds"
      "\<forall>j<length ds. \<exists>c. typed_extraction E (ds ! j) (args ! j) = Inr c"
      "distinct (map decl_ptr ds)" "i < length ds"
      "typed_extraction E (ds ! i) (args ! i) = Inr c"
    then show "snd (Extract a args st) (decl_ptr (ds ! i)) = Some c"
      using run_decls_success [of 0 ds args E st] ex by simp
  qed
qed


theorem Extract_build_spec_witness:
  "Extract (build_spec exact_env [DeclInt64 0, DeclString 1]) [BInt64 3] Map.empty =
     (Some (ArgCountError 2 1), Map.empty) \<and>
   fst (Extract (build_spec exact_env [DeclInt64 0, DeclString 1]) [BInt64 3, BInt64 4] Map.empty) =
     Some (BadArgument 1 (TypeError [ValueString] ValueNumber)) \<and>
   fst (Extract (build_spec exact_env [DeclInt64 0, DeclString 1]) [BInt64 3, BString ''x''] Map.empty) =
     None \<and>
   snd (Extract (build_spec exact_env [DeclInt64 0, DeclString 1]) [BInt64 3, BString ''x''] Map.empty) 0 =
     Some (Int64Cell 3) \<and>
   snd (Extract (build_spec exact_env [DeclInt64 0, DeclString 1]) [BInt64 3, BString ''x''] Map.empty) 1 =
     Some (StringCell ''x'')"
proof -
  note T = Extract_build_spec [where E = exact_env and ds = "[DeclInt64 0, DeclString 1]"
      and st = Map.empty, OF refl]
  have a: "Extract (build_spec exact_env [DeclInt64 0, DeclString 1]) [BInt64 3] Map.empty =
     (Some (ArgCountError 2 1), Map.empty)"
    using T [where args = "[BInt64 3]"] by simp
  have b: "fst (Extract (build_spec exact_env [DeclInt64 0, DeclString 1]) [BInt64 3, BInt64 4] Map.empty) =
     Some (BadArgument 1 (TypeError [ValueString] ValueNumber))"
    using T [where args = "[BInt64 3, BInt64 4]"]
    by (simp add: All_less_Suc NewTypeError_def)
  have c: "fst (Extract (build_spec exact_env [DeclInt64 0, DeclString 1]) [BInt64 3, BString ''x''] Map.empty) =
     None \<and>
   snd (Extract (build_spec exact_env [DeclInt64 0, DeclString 1]) [BInt64 3, BString ''x''] Map.empty) 0 =
     Some (Int64Cell 3) \<and>
   snd (Extract (build_spec exact_env [DeclInt64 0, DeclString 1]) [BInt64 3, BString ''x''] Map.empty) 1 =
     Some (StringCell ''x'')"
    using T [where args = "[BInt64 3, BString ''x'']"]
    by (simp add: All_less_Suc NewTypeError_def)
  from a b c show ?thesis by blast
qed


subsection \<open>Operator precedence\<close>

lemma gpass_split:
  "step op = None \<Longrightarrow>
   gpass step a (xs @ (op, b) # ys) =
     (case gpass step a xs of
        None \<Rightarrow> None
      | Some (h, rest') \<Rightarrow>
          (case gpass step b ys of
             None \<Rightarrow> None
           | Some (h', rest'') \<Rightarrow> Some (h, rest' @ (op, h') # rest'')))"
proof (induction xs arbitrary: a)
  case Nil
  then show ?case by (simp split: option.split)
next
  case (Cons x xs)
  obtain o' f where x: "x = (o', f)" by (cases x)
  show ?case
    using Cons.prems
    by (simp add: x Cons.IH split: option.split)
qed

lemma gpass_append_single:
  "gpass step a xs = Some (h, []) \<Longrightarrow> gpass step a (xs @ ys) = gpass step h ys"
proof (induction xs arbitrary: a)
  case Nil
  then show ?case by simp
next
  case (Cons x xs)
  obtain o' f where x: "x = (o', f)" by (cases x)
  show ?case
    using Cons.prems
    by (auto simp: x Cons.IH split: option.splits)
qed

lemma gpass_append_None:
  "gpass step a xs = None \<Longrightarrow> gpass step a (xs @ ys) = None"
proof (induction xs arbitrary: a ys)
  case Nil
  then show ?case by simp
next
  case (Cons x xs)
  obtain o' f where x: "x = (o', f)" by (cases x)
  show ?case
    using Cons.prems
    by (auto simp: x Cons.IH split: option.splits)
qed

lemma rank_pass_tree: "pass_tree c j t = Some t' \<Longrightarrow> spec_rank t' \<le> spec_rank t"
  by (cases t) (auto split: if_splits option.splits)

lemma pass_tree_props:
  "spec_grouped t \<Longrightarrow> min_level j t \<Longrightarrow> pass_tree c j t = Some t' \<Longrightarrow>
   spec_grouped t' \<and> min_level (Suc j) t' \<and> gbuild c t' = gbuild c t"
proof (induction t arbitrary: t')
  case (Leaf a)
  then show ?case by auto
next
  case (Node op l r)
  show ?case
  proof (cases "spec_precedence op = j")
    case True
    with Node.prems show ?thesis by auto
  next
    case False
    with Node.prems obtain l' r' where
      l': "pass_tree c j l = Some l'" and r': "pass_tree c j r = Some r'" and t': "t' = Node op l' r'"
      by (auto split: option.splits)
    from Node.IH(1) [OF _ _ l'] Node.IH(2) [OF _ _ r'] Node.prems(1,2)
    have "spec_grouped l'" "min_level (Suc j) l'" "gbuild c l' = gbuild c l"
         "spec_grouped r'" "min_level (Suc j) r'" "gbuild c r' = gbuild c r"
      by simp_all
    moreover have "spec_rank l' \<le> spec_rank l" "spec_rank r' \<le> spec_rank r"
      using rank_pass_tree l' r' by blast+
    ultimately show ?thesis
      using Node.prems(1,2) False by (simp add: t' cong: option.case_cong)
  qed
qed

lemma pass_tree_None:
  "pass_tree c j t = None \<Longrightarrow> gbuild c t = None"
proof (induction t)
  case (Leaf a)
  then show ?case by simp
next
  case (Node op l r)
  then show ?case
    by (auto split: if_splits option.splits)
qed

lemma level_top:
  "spec_grouped t \<Longrightarrow> min_level j t \<Longrightarrow> spec_rank t \<le> Suc j \<Longrightarrow>
   pass_tree c j t = map_option Leaf (gbuild c t)"
  by (cases t) auto

lemma level_leaf:
  "min_level j t \<Longrightarrow> spec_rank t \<le> j \<Longrightarrow> \<exists>a. t = Leaf a"
  by (cases t) auto

lemma gpass_tree:
  "spec_grouped t \<Longrightarrow> min_level j t \<Longrightarrow>
   gpass (level_step c j) (tree_head t) (tree_tail t) = map_option chain (pass_tree c j t)"
proof (induction t)
  case (Leaf a)
  show ?case by (simp add: chain_def)
next
  case (Node op l r)
  have gl: "spec_grouped l" "min_level j l" and gr: "spec_grouped r" "min_level j r"
    using Node.prems by simp_all
  note IHl = Node.IH(1) [OF gl]
  note IHr = Node.IH(2) [OF gr]
  show ?case
  proof (cases "spec_precedence op = j")
    case True
    from Node.prems True obtain b where r: "r = Leaf b"
      using level_leaf [of j r] by auto
    have top: "pass_tree c j l = map_option Leaf (gbuild c l)"
      using level_top [OF gl] Node.prems(1) True by simp
    show ?thesis
    proof (cases "gbuild c l")
      case None
      then have "gpass (level_step c j) (tree_head l) (tree_tail l) = None"
        using IHl top by simp
      from gpass_append_None [OF this] None show ?thesis
        by (simp add: r True)
    next
      case (Some x)
      then have "gpass (level_step c j) (tree_head l) (tree_tail l) = Some (x, [])"
        using IHl top by (simp add: chain_def)
      from gpass_append_single [OF this]
      have "gpass (level_step c j) (tree_head l) (tree_tail l @ [(op, b)]) =
          gpass (level_step c j) x [(op, b)]" .
      also have "\<dots> = map_option chain (map_option Leaf (c op x b))"
        by (simp add: True level_step_def chain_def split: option.split)
      finally show ?thesis
        using Some by (simp add: r True)
    qed
  next
    case False
    then have "level_step c j op = None" by (simp add: level_step_def)
    from gpass_split [of "level_step c j" op, OF this] IHl IHr False show ?thesis
      by (simp add: chain_def split: option.split)
  qed
qed

lemma precedence_le: "spec_precedence op \<le> 3"
  by (cases op) simp_all

lemma min_level_4: "min_level 4 t \<Longrightarrow> \<exists>a. t = Leaf a"
proof (cases t)
  case (Leaf a)
  then show ?thesis by simp
next
  case (Node op l r)
  assume "min_level 4 t"
  with Node precedence_le [of op] show ?thesis by simp
qed

lemma min_level_0: "min_level 0 t"
  by (induction t) simp_all

lemma resolve_from_tree:
  "spec_grouped t \<Longrightarrow> min_level j t \<Longrightarrow> j + n = 4 \<Longrightarrow>
   resolve_from c j n (tree_head t, tree_tail t) = gbuild c t"
proof (induction n arbitrary: j t)
  case 0
  then obtain a where "t = Leaf a" using min_level_4 by auto
  then show ?case by simp
next
  case (Suc n)
  show ?case
  proof (cases "pass_tree c j t")
    case None
    with gpass_tree [OF Suc.prems(1,2), of c] pass_tree_None [OF None] show ?thesis
      by simp
  next
    case (Some t')
    from pass_tree_props [OF Suc.prems(1,2) Some]
    have t': "spec_grouped t'" "min_level (Suc j) t'" "gbuild c t' = gbuild c t" by simp_all
    have "resolve_from c (Suc j) n (tree_head t', tree_tail t') = gbuild c t'"
      using Suc.IH [OF t'(1,2)] Suc.prems(3) by simp
    with gpass_tree [OF Suc.prems(1,2), of c] Some t'(3) show ?thesis
      by (simp add: chain_def)
  qed
qed

lemma ok_simps: "ok (Inl e) = None" "ok (Inr x) = Some x"
  by (simp_all add: ok_def)

lemma ok_eq_iff: "ok x = ok y \<Longrightarrow> (x = Inr f) = (y = Inr f)"
  by (cases x; cases y) (simp_all add: ok_def)

lemma ok_step_simps:
  "step op = None \<Longrightarrow> ok_step step op = None"
  "step op = Some comb \<Longrightarrow> ok_step step op = Some (\<lambda>lhs rhs. ok (comb lhs rhs))"
  by (simp_all add: ok_step_def)

lemma pass_loop_gpass:
  "fnsNew \<noteq> [] \<Longrightarrow> length fns = Suc i + length ops \<Longrightarrow>
   ok (pass_loop step fns fnsNew opsNew i ops) =
     map_option (\<lambda>(h, rest). (butlast fnsNew @ h # map snd rest, opsNew @ map fst rest))
       (gpass (ok_step step) (last fnsNew) (zip ops (drop (Suc i) fns)))"
proof (induction ops arbitrary: fnsNew opsNew i)
  case Nil
  then show ?case by (simp add: ok_simps)
next
  case (Cons op ops)
  have i: "Suc i < length fns" using Cons.prems(2) by simp
  then have d: "drop (Suc i) fns = fns ! Suc i # drop (Suc (Suc i)) fns"
    by (simp add: Cons_nth_drop_Suc)
  have len: "length fns = Suc (Suc i) + length ops" using Cons.prems(2) by simp
  show ?case
  proof (cases "step op")
    case None
    have "ok (pass_loop step fns fnsNew opsNew i (op # ops)) =
        ok (pass_loop step fns (fnsNew @ [fns ! Suc i]) (opsNew @ [op]) (Suc i) ops)"
      using i Cons.prems(1) None by simp
    also have "\<dots> = map_option
        (\<lambda>(h, rest). (butlast (fnsNew @ [fns ! Suc i]) @ h # map snd rest, (opsNew @ [op]) @ map fst rest))
        (gpass (ok_step step) (last (fnsNew @ [fns ! Suc i])) (zip ops (drop (Suc (Suc i)) fns)))"
      by (rule Cons.IH) (simp_all add: len)
    finally show ?thesis
      using Cons.prems(1) None
      by (simp add: d ok_step_simps split: option.split del: pass_loop.simps)
  next
    case (Some comb)
    show ?thesis
    proof (cases "comb (last fnsNew) (fns ! Suc i)")
      case (Inl err)
      then show ?thesis
        using i Cons.prems(1) Some by (simp add: d ok_step_simps ok_simps)
    next
      case (Inr fn)
      have "ok (pass_loop step fns fnsNew opsNew i (op # ops)) =
          ok (pass_loop step fns (butlast fnsNew @ [fn]) opsNew (Suc i) ops)"
        using i Cons.prems(1) Some Inr by simp
      also have "\<dots> = map_option
          (\<lambda>(h, rest). (butlast (butlast fnsNew @ [fn]) @ h # map snd rest, opsNew @ map fst rest))
          (gpass (ok_step step) (last (butlast fnsNew @ [fn])) (zip ops (drop (Suc (Suc i)) fns)))"
        by (rule Cons.IH) (simp_all add: len)
      finally show ?thesis
        using Some Inr by (simp add: d ok_step_simps ok_simps del: pass_loop.simps)
    qed
  qed
qed

lemma pass_loop_start:
  "ok (pass_loop step (a # map snd xs) [(a # map snd xs) ! 0] [] 0 (map fst xs)) =
     map_option chain_lists (gpass (ok_step step) a xs)"
proof -
  have "ok (pass_loop step (a # map snd xs) [a] [] 0 (map fst xs)) =
      map_option (\<lambda>(h, rest). (butlast [a] @ h # map snd rest, [] @ map fst rest))
        (gpass (ok_step step) (last [a]) (zip (map fst xs) (drop (Suc 0) (a # map snd xs))))"
    by (rule pass_loop_gpass) simp_all
  moreover have "(\<lambda>(h, rest). (butlast [a] @ h # map snd rest, [] @ map fst rest)) =
      chain_lists"
    by (auto simp: chain_lists_def fun_eq_iff)
  ultimately show ?thesis by (simp add: zip_map_fst_snd)
qed

lemma step_levels:
  "ok_step (prod_step E) = level_step (combO E) 0"
  "ok_step (sum_step E) = level_step (combO E) 1"
  "ok_step (compare_step E) = level_step (combO E) 2"
  "ok_step (bool_step E) = level_step (combO E) 3"
proof -
  show "ok_step (prod_step E) = level_step (combO E) 0"
  proof
    fix op show "ok_step (prod_step E) op = level_step (combO E) 0 op"
      by (cases op) (simp_all add: ok_step_def prod_step_def level_step_def combO_def fun_eq_iff ok_simps)
  qed
  show "ok_step (sum_step E) = level_step (combO E) 1"
  proof
    fix op show "ok_step (sum_step E) op = level_step (combO E) 1 op"
      by (cases op) (simp_all add: ok_step_def sum_step_def level_step_def combO_def fun_eq_iff)
  qed
  show "ok_step (compare_step E) = level_step (combO E) 2"
  proof
    fix op show "ok_step (compare_step E) op = level_step (combO E) 2 op"
      by (cases op) (simp_all add: ok_step_def compare_step_def level_step_def combO_def fun_eq_iff)
  qed
  show "ok_step (bool_step E) = level_step (combO E) 3"
  proof
    fix op show "ok_step (bool_step E) op = level_step (combO E) 3 op"
      by (cases op) (simp_all add: ok_step_def level_step_def combO_def fun_eq_iff ok_simps)
  qed
qed

lemma resolve_from_single: "resolve_from c j n (a, []) = Some a"
  by (induction n arbitrary: j) simp_all

lemma stage_general:
  assumes nxt: "\<And>q. ok (K (chain_lists q)) = resolve_from c (Suc j) n q"
    and step: "ok_step step = level_step c j"
  shows "ok (if length (a # map snd x) = 1 then Inr ((a # map snd x) ! 0)
             else case_sum Inl K (pass_loop step (a # map snd x) [(a # map snd x) ! 0] [] 0 (map fst x)))
         = resolve_from c j (Suc n) (a, x)"
proof (cases "x = []")
  case True
  then show ?thesis by (simp add: ok_simps resolve_from_single)
next
  case False
  note start = pass_loop_start [of step a x, unfolded step]
  show ?thesis
  proof (cases "pass_loop step (a # map snd x) [(a # map snd x) ! 0] [] 0 (map fst x)")
    case (Inl err)
    with start have "gpass (level_step c j) a x = None" by (simp add: ok_simps)
    with Inl False show ?thesis by (simp add: ok_simps)
  next
    case (Inr r)
    with start obtain q where q: "gpass (level_step c j) a x = Some q" "r = chain_lists q"
      by (cases "gpass (level_step c j) a x") (auto simp: ok_simps)
    with Inr False nxt [of q] show ?thesis by simp
  qed
qed

lemma NewArithmeticExpression_resolve:
  "ok (NewArithmeticExpression E (a # map snd x) (map fst x)) = resolve_from (combO E) 0 4 (a, x)"
proof -
  define K4 :: "('a, 'b) Function list \<times> ArithmeticOperator list \<Rightarrow> error + ('a, 'b) Function"
    where "K4 = (\<lambda>(fns4, ops4). if length fns4 = 1 then Inr (fns4 ! 0) else Inl (UnresolvedError ops4))"
  define K3 where "K3 = (\<lambda>(fns3, ops3). if length fns3 = 1 then Inr (fns3 ! 0)
     else case_sum Inl K4 (pass_loop (bool_step E) fns3 [fns3 ! 0] [] 0 ops3))"
  define K2 where "K2 = (\<lambda>(fns2, ops2). if length fns2 = 1 then Inr (fns2 ! 0)
     else case_sum Inl K3 (pass_loop (compare_step E) fns2 [fns2 ! 0] [] 0 ops2))"
  define K1 where "K1 = (\<lambda>(fns1, ops1). if length fns1 = 1 then Inr (fns1 ! 0)
     else case_sum Inl K2 (pass_loop (sum_step E) fns1 [fns1 ! 0] [] 0 ops1))"
  have s4: "ok (K4 (chain_lists q)) = resolve_from (combO E) 4 0 q" for q
    by (cases q) (simp add: K4_def chain_lists_def ok_simps)
  have s3: "ok (K3 (chain_lists q)) = resolve_from (combO E) 3 1 q" for q
    using stage_general [where K = K4 and c = "combO E" and j = 3 and n = 0
        and step = "bool_step E" and a = "fst q" and x = "snd q", OF _ step_levels(4)] s4
    by (simp add: K3_def chain_lists_def numeral_eq_Suc)
  have s2: "ok (K2 (chain_lists q)) = resolve_from (combO E) 2 2 q" for q
    using stage_general [where K = K3 and c = "combO E" and j = 2 and n = 1
        and step = "compare_step E" and a = "fst q" and x = "snd q", OF _ step_levels(3)] s3
    by (simp add: K2_def chain_lists_def numeral_eq_Suc)
  have s1: "ok (K1 (chain_lists q)) = resolve_from (combO E) 1 3 q" for q
    using stage_general [where K = K2 and c = "combO E" and j = 1 and n = 2
        and step = "sum_step E" and a = "fst q" and x = "snd q", OF _ step_levels(2)] s2
    by (simp add: K1_def chain_lists_def numeral_eq_Suc)
  have def: "NewArithmeticExpression E fns ops =
     (if length fns = 1 \<and> length ops = 0 then Inr (fns ! 0)
      else if length fns \<noteq> length ops + 1 then Inl (MismatchError (length fns) (length ops))
      else case_sum Inl K1 (pass_loop (prod_step E) fns [fns ! 0] [] 0 ops))" for fns ops
    unfolding NewArithmeticExpression_def K1_def K2_def K3_def K4_def ..
  have "ok (NewArithmeticExpression E (a # map snd x) (map fst x)) =
      ok (if length (a # map snd x) = 1 then Inr ((a # map snd x) ! 0)
          else case_sum Inl K1 (pass_loop (prod_step E) (a # map snd x) [(a # map snd x) ! 0] [] 0 (map fst x)))"
    by (simp add: def)
  also have "\<dots> = resolve_from (combO E) 0 (Suc 3) (a, x)"
  proof (rule stage_general)
    show "ok (K1 (chain_lists q)) = resolve_from (combO E) (Suc 0) 3 q" for q
      using s1 [of q] by simp
    show "ok_step (prod_step E) = level_step (combO E) 0"
      by (rule step_levels)
  qed
  finally show ?thesis by (simp add: numeral_eq_Suc)
qed

lemma tree_lists:
  "tree_fns t = tree_head t # map snd (tree_tail t)" "tree_ops t = map fst (tree_tail t)"
  by (induction t) simp_all

lemma gbuild_build_tree: "gbuild (combO E) t = ok (spec_build E t)"
  by (induction t) (simp_all add: ok_simps combO_def split: sum.split)

lemma NewArithmeticExpression_tree:
  "spec_grouped t \<Longrightarrow> ok (NewArithmeticExpression E (tree_fns t) (tree_ops t)) = ok (spec_build E t)"
  using resolve_from_tree [of t 0 4 "combO E"]
  by (simp add: tree_lists NewArithmeticExpression_resolve min_level_0 gbuild_build_tree)

lemma attach_lists:
  "tree_fns (attach t op b) = tree_fns t @ [b]" "tree_ops (attach t op b) = tree_ops t @ [op]"
  by (induction t) simp_all

lemma rank_attach: "spec_rank (attach t op b) \<le> max (spec_rank t) (Suc (spec_precedence op))"
  by (cases t) simp_all

lemma grouped_attach: "spec_grouped t \<Longrightarrow> spec_grouped (attach t op b)"
proof (induction t)
  case (Leaf a)
  show ?case by simp
next
  case (Node op' l r)
  show ?case
  proof (cases "spec_precedence op < spec_precedence op'")
    case True
    have "spec_rank (attach r op b) \<le> spec_precedence op'"
      using rank_attach [of r op b] Node.prems True by (simp add: max_def split: if_splits)
    with Node True show ?thesis by simp
  next
    case False
    with Node.prems show ?thesis by simp
  qed
qed

lemma grouped_tree_exists_from:
  "spec_grouped t \<Longrightarrow> length fs = length ops \<Longrightarrow>
   \<exists>t'. spec_grouped t' \<and> tree_fns t' = tree_fns t @ fs \<and> tree_ops t' = tree_ops t @ ops"
proof (induction fs arbitrary: t ops)
  case Nil
  then show ?case by auto
next
  case (Cons f fs)
  then obtain op ops' where ops: "ops = op # ops'" by (cases ops) auto
  from Cons.IH [of "attach t op f" ops'] Cons.prems ops
  show ?case by (auto simp: grouped_attach attach_lists)
qed

lemma grouped_tree_exists:
  "length fns = Suc (length ops) \<Longrightarrow> \<exists>t. spec_grouped t \<and> tree_fns t = fns \<and> tree_ops t = ops"
proof -
  assume len: "length fns = Suc (length ops)"
  then obtain f fs where fns: "fns = f # fs" by (cases fns) auto
  with len grouped_tree_exists_from [of "Leaf f" fs ops] show ?thesis by auto
qed

lemma precedence_examples:
  "NewArithmeticExpression E [x, y, z] [ArithmeticAdd, ArithmeticMul] =
     (case arithmeticFunc y z (mulOp E) of
        Inl err \<Rightarrow> Inl err
      | Inr yz \<Rightarrow> arithmeticFunc x yz (addOp E))"
  "NewArithmeticExpression E [x, y, z] [ArithmeticPipe, ArithmeticAnd] =
     Inr (boolAnd E (coalesce x y) z)"
  "NewArithmeticExpression E [x, y, z] [ArithmeticAnd, ArithmeticPipe] =
     Inr (boolAnd E x (coalesce y z))"
  "NewArithmeticExpression E [x, y, z] [ArithmeticEq, ArithmeticOr] =
     (case arithmeticFunc x y (compareFunc E ArithmeticEq) of
        Inl err \<Rightarrow> Inl err
      | Inr xy \<Rightarrow> Inr (boolOr E xy z))"
  by (simp_all add: NewArithmeticExpression_def prod_step_def sum_step_def compare_step_def
        split: sum.split del: arithmeticFunc.simps)

text \<open>
  C2: every flat sequence of \<open>n + 1\<close> functions and \<open>n\<close> operators is the sequence of
  a tree grouped by the precedence table, and for every such tree
  \<^verbatim>\<open>NewArithmeticExpression\<close> returns a function exactly when building the tree node
  by node does, and then the same function: the operators are grouped by the table,
  each level folding from left to right. In particular \<^verbatim>\<open>x + y * z\<close> is
  \<^verbatim>\<open>x + (y * z)\<close>, \<^verbatim>\<open>x | y && z\<close> is \<^verbatim>\<open>(x | y) && z\<close>, \<^verbatim>\<open>x && y | z\<close> is
  \<^verbatim>\<open>x && (y | z)\<close>, and \<^verbatim>\<open>x == y || z\<close> is \<^verbatim>\<open>(x == y) || z\<close>.
\<close>

theorem precedence_grouping:
  "length fns = Suc (length ops) \<Longrightarrow>
   (\<exists>t. spec_grouped t \<and> tree_fns t = fns \<and> tree_ops t = ops) \<and>
   (\<forall>t. spec_grouped t \<and> tree_fns t = fns \<and> tree_ops t = ops \<longrightarrow>
      (NewArithmeticExpression E fns ops = Inr fn) = (spec_build E t = Inr fn)) \<and>
   NewArithmeticExpression E [x, y, z] [ArithmeticAdd, ArithmeticMul] =
     (case arithmeticFunc y z (mulOp E) of
        Inl err \<Rightarrow> Inl err
      | Inr yz \<Rightarrow> arithmeticFunc x yz (addOp E)) \<and>
   NewArithmeticExpression E [x, y, z] [ArithmeticPipe, ArithmeticAnd] =
     Inr (boolAnd E (coalesce x y) z) \<and>
   NewArithmeticExpression E [x, y, z] [ArithmeticAnd, ArithmeticPipe] =
     Inr (boolAnd E x (coalesce y z)) \<and>
   NewArithmeticExpression E [x, y, z] [ArithmeticEq, ArithmeticOr] =
     (case arithmeticFunc x y (compareFunc E ArithmeticEq) of
        Inl err \<Rightarrow> Inl err
      | Inr xy \<Rightarrow> Inr (boolOr E xy z))"
  for fn x y z :: "('f, 'c) Function"
proof (intro conjI allI impI)
  assume len: "length fns = Suc (length ops)"
  show "\<exists>t. spec_grouped t \<and> tree_fns t = fns \<and> tree_ops t = ops"
    using len by (rule grouped_tree_exists)
next
  fix t :: "('f, 'c) Function expr_tree"
  assume t: "spec_grouped t \<and> tree_fns t = fns \<and> tree_ops t = ops"
  then have "ok (NewArithmeticExpression E fns ops) = ok (spec_build E t)"
    using NewArithmeticExpression_tree [of t E] by auto
  then show "(NewArithmeticExpression E fns ops = Inr fn) = (spec_build E t = Inr fn)"
    by (rule ok_eq_iff)
qed (rule precedence_examples)+

theorem precedence_grouping_witness:
  "NewArithmeticExpression exact_env
     [Literal (BInt64 2), Literal (BInt64 3), Literal (BInt64 4)] [ArithmeticAdd, ArithmeticMul] =
   Inr (Literal (BInt64 14) :: (real, unit) Function)"
proof -
  let ?fns = "[Literal (BInt64 2), Literal (BInt64 3), Literal (BInt64 4)] :: (real, unit) Function list"
  let ?t = "Node ArithmeticAdd (Leaf (Literal (BInt64 2)))
              (Node ArithmeticMul (Leaf (Literal (BInt64 3))) (Leaf (Literal (BInt64 4))))
            :: (real, unit) Function expr_tree"
  have m: "mulOp exact_env (BInt64 3) (BInt64 4) = Inr (BInt64 12)"
    by (simp add: mulOp_def numberDegradationFunc_def)
  have a: "numberAdd exact_env (BInt64 2) (BInt64 12) = Inr (BInt64 14)"
    by (simp add: numberAdd_def numberDegradationFunc_def)
  have b: "spec_build exact_env ?t = Inr (Literal (BInt64 14))"
    by (simp add: m a NewLiteralFunction_def)
  have g: "spec_grouped ?t \<and> tree_fns ?t = ?fns \<and> tree_ops ?t = [ArithmeticAdd, ArithmeticMul]"
    by simp
  have len: "length ?fns = Suc (length [ArithmeticAdd, ArithmeticMul])"
    by simp
  from precedence_grouping [where E = exact_env and fns = ?fns
      and ops = "[ArithmeticAdd, ArithmeticMul]" and fn = "Literal (BInt64 14)", OF len,
      THEN conjunct2, THEN conjunct1, THEN spec, of ?t, THEN mp, OF g] b
  show ?thesis by simp
qed


subsection \<open>Deleting the root\<close>

lemma exec_statements_append:
  "exec_statements M batch index this (xs @ ys) p =
     (case exec_statements M batch index this xs p of
        Inl err \<Rightarrow> Inl err
      | Inr p' \<Rightarrow> exec_statements M batch index this ys p')"
  by (induction xs arbitrary: p) (simp_all split: sum.split)

lemma apply_assignment_keeps_deleted:
  "target \<noteq> TargetJSON None \<Longrightarrow> apply_assignment M target v p = Inr p' \<Longrightarrow>
   pend_deleted p' = pend_deleted p"
  by (cases "(M, target, v, p)" rule: apply_assignment.cases) (auto split: boxed.splits)

lemma exec_statements_keeps_deleted:
  "\<forall>t\<in>set post. stmt_target t \<noteq> TargetJSON None \<Longrightarrow>
   exec_statements M batch index this post p = Inr p' \<Longrightarrow>
   pend_deleted p' = pend_deleted p"
proof (induction post arbitrary: p)
  case Nil
  then show ?case by simp
next
  case (Cons s post)
  from Cons.prems(2) obtain v q where
    q: "apply_assignment M (stmt_target s) v p = Inr q"
    and rest: "exec_statements M batch index this post q = Inr p'"
    by (auto split: sum.splits)
  have "pend_deleted q = pend_deleted p"
    using apply_assignment_keeps_deleted [OF _ q] Cons.prems(1) by simp
  moreover have "pend_deleted p' = pend_deleted q"
    using Cons.IH [OF _ rest] Cons.prems(1) by simp
  ultimately show ?case by simp
qed

text \<open>
  C1: for every batch and index of a part, when a statement of the mapping assigns
  \<open>Delete\<close> to the root JSON target (the statements before it have run, and its
  query evaluates to \<open>Delete\<close>) and no later statement has the root JSON target,
  \<^verbatim>\<open>MapPart\<close> returns \<open>None\<close>, no part, unless a later statement fails, and then that
  statement's error; it never returns a part. When the statement is the last one,
  \<^verbatim>\<open>MapPart\<close> returns \<open>None\<close>.
\<close>

theorem root_delete_annihilation:
  "index < length batch \<Longrightarrow>
   exec_statements M batch index (part_structured M (batch ! index)) pre
     (initial_pending M (batch ! index)) = Inr p \<Longrightarrow>
   stmt_target s = TargetJSON None \<Longrightarrow>
   Exec (stmt_query s) (statement_context batch index (part_structured M (batch ! index)) p)
     = Inr BDelete \<Longrightarrow>
   \<forall>t\<in>set post. stmt_target t \<noteq> TargetJSON None \<Longrightarrow>
   MapPart M (pre @ s # post) index batch =
     (case exec_statements M batch index (part_structured M (batch ! index)) post
             (p\<lparr>pend_deleted := True\<rparr>) of
        Inl err \<Rightarrow> Inl err
      | Inr p' \<Rightarrow> Inr None) \<and>
   (post = [] \<longrightarrow> MapPart M (pre @ [s]) index batch = Inr None)"
proof -
  assume i: "index < length batch"
    and pre: "exec_statements M batch index (part_structured M (batch ! index)) pre
        (initial_pending M (batch ! index)) = Inr p"
    and tgt: "stmt_target s = TargetJSON None"
    and del: "Exec (stmt_query s)
        (statement_context batch index (part_structured M (batch ! index)) p) = Inr BDelete"
    and post: "\<forall>t\<in>set post. stmt_target t \<noteq> TargetJSON None"
  let ?root = "part_structured M (batch ! index)"
  have run: "exec_statements M batch index ?root (pre @ s # post) (initial_pending M (batch ! index)) =
      exec_statements M batch index ?root post (p\<lparr>pend_deleted := True\<rparr>)"
    by (simp add: exec_statements_append pre tgt del)
  have "materialize M (batch ! index) p' = None"
    if "exec_statements M batch index ?root post (p\<lparr>pend_deleted := True\<rparr>) = Inr p'" for p'
    using exec_statements_keeps_deleted [OF post that] by (simp add: materialize_def)
  then have main: "MapPart M (pre @ s # post) index batch =
     (case exec_statements M batch index ?root post (p\<lparr>pend_deleted := True\<rparr>) of
        Inl err \<Rightarrow> Inl err
      | Inr p' \<Rightarrow> Inr None)"
    using i by (simp add: MapPart_def run split: sum.split)
  then show ?thesis by auto
qed

theorem root_delete_annihilation_witness:
  "\<forall>M :: real msg_env.
     MapPart M [\<lparr>stmt_line = 0, stmt_target = TargetJSON None, stmt_query = Literal BDelete\<rparr>]
       0 [\<lparr>part_content = ''{}'', part_meta = []\<rparr>] = Inr None \<and>
     MapPart M
       [\<lparr>stmt_line = 0, stmt_target = TargetJSON None, stmt_query = Literal BDelete\<rparr>,
        \<lparr>stmt_line = 1, stmt_target = TargetVar ''foo'', stmt_query = Literal (BString ''x'')\<rparr>]
       0 [\<lparr>part_content = ''{}'', part_meta = []\<rparr>] = Inr None"
proof (intro allI conjI)
  fix M :: "real msg_env"
  let ?del = "\<lparr>stmt_line = 0, stmt_target = TargetJSON None, stmt_query = Literal BDelete\<rparr>
      :: real Statement"
  let ?var = "\<lparr>stmt_line = 1, stmt_target = TargetVar ''foo'', stmt_query = Literal (BString ''x'')\<rparr>
      :: real Statement"
  let ?batch = "[\<lparr>part_content = ''{}'', part_meta = []\<rparr>]"
  note T = root_delete_annihilation [where M = M and batch = ?batch and index = 0 and pre = "[]"
      and s = ?del and p = "initial_pending M (?batch ! 0)"]
  show "MapPart M [?del] 0 ?batch = Inr None"
    using T [where post = "[]"] by simp
  show "MapPart M [?del, ?var] 0 ?batch = Inr None"
    using T [where post = "[?var]"] by simp
qed

end
